theory Spec2Isabelle
  imports Main "HOL-Library.Word" "HOL-Library.Sublist"
begin

section \<open>scripts/convert-png-to-jpg.py: a shallow embedding\<close>

text \<open>
  The script walks \<^verbatim>\<open>public/images\<close>, re-encodes every PNG as a JPEG, optionally moves
  the \<^verbatim>\<open>-square\<close> variants to \<^verbatim>\<open>public/square\<close>, deletes the PNG and prints a summary.
  The embedding keeps the functions of the script (\<open>clamp_quality\<close>, \<open>flatten_to_rgb\<close>,
  \<open>collect_png_files\<close>, \<open>convert_file\<close>, \<open>main\<close>) and makes explicit what they touch:
  the file system and standard output are a \<open>world\<close> that every operation receives and
  returns, an exception is the \<open>Inl\<close> of a sum, and the parts of Pillow and of the
  operating system whose results the script only passes on (decoding a PNG, encoding a
  JPEG, \<^verbatim>\<open>Image.convert\<close>, \<^verbatim>\<open>os.walk\<close>) are the fields of a record \<open>lib\<close> that
  every theorem quantifies over.
\<close>

subsection \<open>Strings and paths (str, pathlib)\<close>

text \<open>\<^verbatim>\<open>str.lower\<close> on the ASCII letters; other characters are left alone.\<close>

definition lower_char :: "char \<Rightarrow> char" where
  "lower_char c =
     (case map_of (zip ''ABCDEFGHIJKLMNOPQRSTUVWXYZ'' ''abcdefghijklmnopqrstuvwxyz'') c of
        Some d \<Rightarrow> d
      | None \<Rightarrow> c)"

definition lower :: "string \<Rightarrow> string" where
  "lower s = map lower_char s"

definition endswith :: "string \<Rightarrow> string \<Rightarrow> bool" where
  "endswith s suf = (length suf \<le> length s \<and> drop (length s - length suf) s = suf)"

text \<open>\<^verbatim>\<open>str.rfind\<close> of one character: the highest index, \<open>None\<close> for Python's -1.\<close>

fun rfind :: "char \<Rightarrow> string \<Rightarrow> nat option" where
  "rfind c [] = None"
| "rfind c (x # xs) =
     (case rfind c xs of
        Some i \<Rightarrow> Some (Suc i)
      | None \<Rightarrow> if x = c then Some 0 else None)"

text \<open>
  A path is the list of its components; the last one is the name, and the empty list is
  the root, whose name is empty. \<open>suffix_of\<close> and \<open>stem\<close> are \<^verbatim>\<open>PurePath.suffix\<close>
  and \<^verbatim>\<open>PurePath.stem\<close> (CPython 3.8 to 3.13): the name is cut at its last dot unless
  that dot is the first or the last character.
\<close>

type_synonym path = "string list"

definition name_of :: "path \<Rightarrow> string" where
  "name_of p = (case rev p of [] \<Rightarrow> [] | n # _ \<Rightarrow> n)"

definition suffix_of :: "path \<Rightarrow> string" where
  "suffix_of p =
     (let name = name_of p in
      case rfind CHR ''.'' name of
        None \<Rightarrow> []
      | Some i \<Rightarrow> if 0 < i \<and> i < length name - 1 then drop i name else [])"

definition stem :: "path \<Rightarrow> string" where
  "stem p =
     (let name = name_of p in
      case rfind CHR ''.'' name of
        None \<Rightarrow> name
      | Some i \<Rightarrow> if 0 < i \<and> i < length name - 1 then take i name else name)"

subsection \<open>Exceptions\<close>

text \<open>
  Every constructor is a subclass of Python's \<^verbatim>\<open>Exception\<close>, which is what the loop of
  \<open>main\<close> catches. \<open>LibraryError\<close> stands for whatever Pillow raises while decoding or
  encoding (\<^verbatim>\<open>UnidentifiedImageError\<close>, \<^verbatim>\<open>OSError\<close>, ...).
\<close>

datatype error =
    FileNotFoundError
  | IsADirectoryError
  | NotADirectoryError
  | FileExistsError
  | ValueError string
  | OSError string
  | LibraryError string

text \<open>
  \<^verbatim>\<open>PurePath.with_suffix\<close>: a path with an empty name raises \<^verbatim>\<open>ValueError\<close>; otherwise
  the old suffix, when there is one, is cut off the name and the new one appended.
\<close>

definition with_suffix :: "path \<Rightarrow> string \<Rightarrow> error + path" where
  "with_suffix p sfx =
     (let name = name_of p in
      if name = [] then Inl (ValueError ''empty name'')
      else
        let old_suffix = suffix_of p in
        if old_suffix = [] then Inr (butlast p @ [name @ sfx])
        else Inr (butlast p @ [take (length name - length old_suffix) name @ sfx]))"

subsection \<open>Images (PIL.Image)\<close>

text \<open>
  An image has its mode, the keys of its \<^verbatim>\<open>info\<close> dictionary, its size and its bands,
  each band the list of the 8-bit samples of all pixels in row order (an \<open>RGBA\<close> image
  has four bands, an \<open>LA\<close> image two, a palette image one).
\<close>

record image =
  im_mode :: string
  im_info :: "string list"
  im_size :: "nat \<times> nat"
  im_bands :: "8 word list list"

text \<open>\<^verbatim>\<open>Image.new("RGB", size, color)\<close>: every pixel has the given colour.\<close>

definition image_new_rgb :: "nat \<times> nat \<Rightarrow> 8 word \<times> 8 word \<times> 8 word \<Rightarrow> image" where
  "image_new_rgb sz color =
     (case color of (r, g, b) \<Rightarrow>
        \<lparr>im_mode = ''RGB'', im_info = [], im_size = sz,
         im_bands = [replicate (fst sz * snd sz) r, replicate (fst sz * snd sz) g,
                     replicate (fst sz * snd sz) b]\<rparr>)"

text \<open>
  \<^verbatim>\<open>Image.split\<close>: a single-band image gives a copy of itself, any other image one
  \<open>L\<close> image for each band.
\<close>

definition image_split :: "image \<Rightarrow> image list" where
  "image_split img =
     (if length (im_bands img) \<le> 1 then [img]
      else map (\<lambda>b. img\<lparr>im_mode := ''L'', im_bands := [b]\<rparr>) (im_bands img))"

text \<open>
  The blending of Pillow's \<^verbatim>\<open>Paste.c\<close>: \<^verbatim>\<open>DIV255\<close> is the rounded division by 255 in
  integer arithmetic, \<^verbatim>\<open>BLEND8(mask, in1, in2)\<close> mixes the old sample \<open>in1\<close> and the
  pasted sample \<open>in2\<close>, \<^verbatim>\<open>PREBLEND8\<close> is its premultiplied form.
\<close>

definition div255 :: "nat \<Rightarrow> nat" where
  "div255 a = (let tmp = a + 128 in (tmp div 256 + tmp) div 256)"

definition blend8 :: "8 word \<Rightarrow> 8 word \<Rightarrow> 8 word \<Rightarrow> 8 word" where
  "blend8 m in1 in2 = of_nat (div255 (unat in1 * (255 - unat m) + unat in2 * unat m))"

definition preblend8 :: "8 word \<Rightarrow> 8 word \<Rightarrow> 8 word \<Rightarrow> 8 word" where
  "preblend8 m in1 in2 = of_nat (div255 (unat in1 * (255 - unat m)) + unat in2)"

definition paste_band ::
  "(8 word \<Rightarrow> 8 word \<Rightarrow> 8 word \<Rightarrow> 8 word) \<Rightarrow> 8 word list \<Rightarrow> 8 word list \<Rightarrow> 8 word list
   \<Rightarrow> 8 word list" where
  "paste_band f ms out inp = map (\<lambda>(m, a, b). f m a b) (zip ms (zip out inp))"

text \<open>
  The samples as Pillow stores them, four bytes a pixel: an \<open>LA\<close> image keeps its
  luminance in the first three bytes and its alpha in the fourth.
\<close>

definition storage_bands :: "image \<Rightarrow> 8 word list list" where
  "storage_bands img =
     (if im_mode img = ''LA'' then
        (case im_bands img of
           [l, a] \<Rightarrow> [l, l, l, a]
         | bs \<Rightarrow> bs)
      else im_bands img)"

subsection \<open>The library and the operating system\<close>

text \<open>
  What the script takes from Pillow and from the operating system without looking
  inside:
  \<^item> \<open>image_open\<close>: \<^verbatim>\<open>Image.open\<close> with the decoding of the pixel data, from the bytes of
    the file;
  \<^item> \<open>convert\<close>: \<^verbatim>\<open>Image.convert(mode)\<close>;
  \<^item> \<open>jpeg_encode\<close>: the JPEG encoder at a quality, with \<^verbatim>\<open>optimize=True\<close>,
    \<^verbatim>\<open>progressive=True\<close> and \<^verbatim>\<open>subsampling="4:2:0"\<close>; it gives the bytes of the file, or
    the exception together with the bytes written before it;
  \<^item> \<open>walk\<close>: \<^verbatim>\<open>os.walk(root)\<close> on a file system, as the list of its
    \<^verbatim>\<open>(dirpath, dirnames, filenames)\<close> triples.
\<close>

datatype node = File "8 word list" | Dir

record lib =
  image_open :: "8 word list \<Rightarrow> error + image"
  convert :: "image \<Rightarrow> string \<Rightarrow> image"
  jpeg_encode :: "image \<Rightarrow> int \<Rightarrow> (error \<times> 8 word list) + 8 word list"
  walk :: "(path \<Rightarrow> node option) \<Rightarrow> path \<Rightarrow> (path \<times> string list \<times> string list) list"

text \<open>
  \<^verbatim>\<open>self.paste(im, mask=mask)\<close> at the origin. \<^verbatim>\<open>Image.paste\<close> converts \<open>im\<close> to the
  mode of \<open>self\<close> unless \<open>self\<close> is \<open>RGB\<close> and \<open>im\<close> is \<open>LA\<close>, \<open>RGBA\<close> or \<open>RGBa\<close>;
  \<^verbatim>\<open>ImagingPaste\<close> then rejects images of different sizes and picks the blending by the
  mode of the mask: \<open>1\<close> copies where the mask is not zero, \<open>L\<close> blends with the mask's
  band, \<open>LA\<close> and \<open>RGBA\<close> blend with the mask's alpha band, \<open>RGBa\<close> does so
  premultiplied, and any other mode is the \<^verbatim>\<open>ValueError\<close> "bad transparency mask".
  The result is the new \<open>self\<close>.
\<close>

definition image_paste :: "lib \<Rightarrow> image \<Rightarrow> image \<Rightarrow> image \<Rightarrow> error + image" where
  "image_paste L self im msk =
     (let src =
        (if im_mode self \<noteq> im_mode im
            \<and> (im_mode self \<noteq> ''RGB'' \<or> im_mode im \<notin> {''LA'', ''RGBA'', ''RGBa''})
         then convert L im (im_mode self) else im);
          first = (case im_bands msk of [] \<Rightarrow> [] | b # _ \<Rightarrow> b);
          alpha = (case rev (im_bands msk) of [] \<Rightarrow> [] | a # _ \<Rightarrow> a);
          blend = (\<lambda>f m. Inr (self\<lparr>im_bands :=
                     map (\<lambda>(out, inp). paste_band f m out inp)
                       (zip (im_bands self) (storage_bands src))\<rparr>))
      in
      if im_size src \<noteq> im_size self \<or> im_size msk \<noteq> im_size self
      then Inl (ValueError ''images do not match'')
      else if im_mode msk = ''1'' then blend (\<lambda>m a b. if m \<noteq> 0 then b else a) first
      else if im_mode msk = ''L'' then blend blend8 first
      else if im_mode msk = ''LA'' \<or> im_mode msk = ''RGBA'' then blend blend8 alpha
      else if im_mode msk = ''RGBa'' then blend preblend8 alpha
      else Inl (ValueError ''bad transparency mask''))"

subsection \<open>flatten_to_rgb\<close>

definition flatten_to_rgb :: "lib \<Rightarrow> image \<Rightarrow> error + image" where
  "flatten_to_rgb L img =
     (if im_mode img \<in> {''RGB'', ''L''} then Inr (convert L img ''RGB'')
      else if im_mode img \<in> {''RGBA'', ''LA''} \<or> ''transparency'' \<in> set (im_info img) then
        (let bg = image_new_rgb (im_size img) (255, 255, 255) in
         image_paste L bg img (last (image_split img)))
      else Inr (convert L img ''RGB''))"

subsection \<open>The world: file system and standard output\<close>

text \<open>
  The file system maps a path to a regular file with its bytes, to a directory, or to
  nothing. Links, permissions and the failures of the device are not part of it: an
  operation fails exactly when the shape of the file system makes it fail. A printed
  line is the list of the arguments of \<^verbatim>\<open>print\<close>; an f-string is a \<open>Text\<close> of its
  pieces, \<open>Dec n\<close> a number in decimal and \<open>KiB n\<close> the rendering
  \<^verbatim>\<open>{n / 1024:.1f}\<close>.
\<close>

datatype piece = Lit string | Dec int | KiB int

datatype log_arg = Text "piece list" | PathArg path | ExcArg error

record world =
  fs :: "path \<Rightarrow> node option"
  stdout :: "log_arg list list"

definition log :: "world \<Rightarrow> log_arg list \<Rightarrow> world" where
  "log w args = w\<lparr>stdout := stdout w @ [Text [Lit ''[png2jpg]''] # args]\<rparr>"

text \<open>\<^verbatim>\<open>Path.exists\<close>.\<close>

definition path_exists :: "world \<Rightarrow> path \<Rightarrow> bool" where
  "path_exists w p = (fs w p \<noteq> None)"

text \<open>
  \<^verbatim>\<open>Path.stat().st_size\<close>. The size of a directory depends on the file system; the
  script never uses it (opening a directory as an image raises), and it is 0 here.
\<close>

definition stat_size :: "world \<Rightarrow> path \<Rightarrow> error + int" where
  "stat_size w p =
     (case fs w p of
        None \<Rightarrow> Inl FileNotFoundError
      | Some (File b) \<Rightarrow> Inr (int (length b))
      | Some Dir \<Rightarrow> Inr 0)"

text \<open>\<^verbatim>\<open>Image.open(path)\<close>, with the decoding that the first use of the image does.\<close>

definition open_image :: "lib \<Rightarrow> world \<Rightarrow> path \<Rightarrow> error + image" where
  "open_image L w p =
     (case fs w p of
        None \<Rightarrow> Inl FileNotFoundError
      | Some Dir \<Rightarrow> Inl IsADirectoryError
      | Some (File b) \<Rightarrow> image_open L b)"

text \<open>
  \<^verbatim>\<open>rgb.save(path, "JPEG", quality=quality, optimize=True, progressive=True,
  subsampling="4:2:0")\<close>. Pillow opens the file for writing, which needs the parent
  directory and empties an existing file, and runs the encoder; when the encoder raises,
  Pillow removes the file if it did not exist before and raises again, so an existing
  file keeps what was written.
\<close>

definition save_jpeg :: "lib \<Rightarrow> world \<Rightarrow> image \<Rightarrow> path \<Rightarrow> int \<Rightarrow> world \<times> (error + unit)" where
  "save_jpeg L w img p quality =
     (case fs w p of
        Some Dir \<Rightarrow> (w, Inl IsADirectoryError)
      | existing \<Rightarrow>
          (case fs w (butlast p) of
             None \<Rightarrow> (w, Inl FileNotFoundError)
           | Some (File _) \<Rightarrow> (w, Inl NotADirectoryError)
           | Some Dir \<Rightarrow>
               (case jpeg_encode L img quality of
                  Inr b \<Rightarrow> (w\<lparr>fs := (fs w)(p \<mapsto> File b)\<rparr>, Inr ())
                | Inl (e, written) \<Rightarrow>
                    (if existing = None then w else w\<lparr>fs := (fs w)(p \<mapsto> File written)\<rparr>,
                     Inl e))))"

text \<open>
  \<^verbatim>\<open>Path.mkdir(parents=True, exist_ok=True)\<close>: a regular file at the path is
  \<^verbatim>\<open>FileExistsError\<close>, a regular file above it \<^verbatim>\<open>NotADirectoryError\<close>, and nothing is
  created; otherwise every missing directory down to the path is created.
\<close>

definition is_file :: "node option \<Rightarrow> bool" where
  "is_file n = (case n of Some (File _) \<Rightarrow> True | _ \<Rightarrow> False)"

definition mkdir_parents :: "world \<Rightarrow> path \<Rightarrow> error + world" where
  "mkdir_parents w d =
     (if is_file (fs w d) then Inl FileExistsError
      else if (\<exists>p \<in> set (prefixes d). is_file (fs w p)) then Inl NotADirectoryError
      else Inr (w\<lparr>fs := (\<lambda>q. if q \<in> set (prefixes d) \<and> fs w q = None then Some Dir
                             else fs w q)\<rparr>))"

text \<open>
  \<^verbatim>\<open>Path.replace(target)\<close>, that is \<^verbatim>\<open>os.replace\<close>, of a regular file: the target is
  overwritten unless it is a directory, and its parent directory must exist. The script
  calls it on the file it has just written; the renaming of a directory is not modelled
  and is reported as an \<^verbatim>\<open>OSError\<close>.
\<close>

definition replace_path :: "world \<Rightarrow> path \<Rightarrow> path \<Rightarrow> error + world" where
  "replace_path w src dst =
     (case fs w src of
        None \<Rightarrow> Inl FileNotFoundError
      | Some Dir \<Rightarrow> Inl (OSError ''rename of a directory'')
      | Some (File b) \<Rightarrow>
          (case fs w dst of
             Some Dir \<Rightarrow> Inl IsADirectoryError
           | _ \<Rightarrow>
               (case fs w (butlast dst) of
                  None \<Rightarrow> Inl FileNotFoundError
                | Some (File _) \<Rightarrow> Inl NotADirectoryError
                | Some Dir \<Rightarrow> Inr (w\<lparr>fs := (fs w)(src := None, dst \<mapsto> File b)\<rparr>))))"

text \<open>\<^verbatim>\<open>Path.unlink()\<close>.\<close>

definition unlink :: "world \<Rightarrow> path \<Rightarrow> error + world" where
  "unlink w p =
     (case fs w p of
        None \<Rightarrow> Inl FileNotFoundError
      | Some Dir \<Rightarrow> Inl IsADirectoryError
      | Some (File _) \<Rightarrow> Inr (w\<lparr>fs := (fs w)(p := None)\<rparr>))"

subsection \<open>collect_png_files\<close>

text \<open>
  The generator is consumed at once by \<^verbatim>\<open>list(...)\<close> in \<open>main\<close>, so it is the list
  of what it yields, in the order of the walk.
\<close>

definition collect_png_files :: "lib \<Rightarrow> world \<Rightarrow> path \<Rightarrow> path list" where
  "collect_png_files L w root =
     concat (map (\<lambda>(dirpath, dirnames, filenames).
                    map (\<lambda>name. dirpath @ [name])
                      (filter (\<lambda>name. endswith (lower name) ''.png'') filenames))
               (walk L (fs w) root))"

subsection \<open>clamp_quality\<close>

definition clamp_quality :: "int \<Rightarrow> int" where
  "clamp_quality v = max 40 (min 95 v)"

subsection \<open>convert_file\<close>

text \<open>
  The result is the world the call leaves behind, and either the exception that escapes
  or the returned triple \<^verbatim>\<open>(status, input_size, output_size)\<close>. The names of the
  intermediate worlds follow the statements: \<open>w1\<close> after \<^verbatim>\<open>save\<close>, \<open>w2\<close> after
  \<^verbatim>\<open>mkdir\<close>, \<open>w3\<close> after \<^verbatim>\<open>replace\<close>, \<open>w4\<close> after the whole \<^verbatim>\<open>if move_square\<close>
  block, \<open>w5\<close> after \<^verbatim>\<open>unlink\<close>.
\<close>

definition convert_file ::
  "lib \<Rightarrow> world \<Rightarrow> path \<Rightarrow> int \<Rightarrow> bool \<Rightarrow> bool \<Rightarrow> path
   \<Rightarrow> world \<times> (error + string \<times> int \<times> int)" where
  "convert_file L w png_path quality force move_square square_dir =
     (let base = stem png_path in
      case with_suffix png_path ''.jpg'' of
        Inl e \<Rightarrow> (w, Inl e)
      | Inr jpg_path \<Rightarrow>
          if path_exists w jpg_path \<and> \<not> force then (w, Inr (''skipped'', 0, 0))
          else
            (case stat_size w png_path of
               Inl e \<Rightarrow> (w, Inl e)
             | Inr input_size \<Rightarrow>
            (case open_image L w png_path of
               Inl e \<Rightarrow> (w, Inl e)
             | Inr img \<Rightarrow>
            (case flatten_to_rgb L img of
               Inl e \<Rightarrow> (w, Inl e)
             | Inr rgb \<Rightarrow>
            (case save_jpeg L w rgb jpg_path quality of
               (w1, Inl e) \<Rightarrow> (w1, Inl e)
             | (w1, Inr _) \<Rightarrow>
            (case
               (if move_square \<and> endswith base ''-square'' then
                  (case mkdir_parents w1 square_dir of
                     Inl e \<Rightarrow> (w1, Inl e)
                   | Inr w2 \<Rightarrow>
                       (let clean_base = take (length base - length ''-square'') base;
                            target = square_dir @ [clean_base @ ''.jpg''] in
                        if path_exists w2 target \<and> \<not> force then
                          (log w2 [Text [Lit ''Exists, skip move (use --force):''],
                                   PathArg target],
                           Inr jpg_path)
                        else
                          (case replace_path w2 jpg_path target of
                             Inl e \<Rightarrow> (w2, Inl e)
                           | Inr w3 \<Rightarrow> (w3, Inr target))))
                else (w1, Inr jpg_path))
             of
               (w4, Inl e) \<Rightarrow> (w4, Inl e)
             | (w4, Inr jpg_final) \<Rightarrow>
            (case unlink w4 png_path of
               Inl e \<Rightarrow> (w4, Inl e)
             | Inr w5 \<Rightarrow>
            (case stat_size w5 jpg_final of
               Inl e \<Rightarrow> (w5, Inl e)
             | Inr output_size \<Rightarrow>
                 (w5, Inr (''converted'', input_size, output_size))))))))))"

subsection \<open>main\<close>

text \<open>
  The four counters of \<open>main\<close>, and its loop: \<^verbatim>\<open>for f in files\<close> with the
  \<^verbatim>\<open>try\<close>/\<^verbatim>\<open>except Exception\<close> around the call of \<open>convert_file\<close>.
\<close>

record counters =
  converted :: int
  skipped :: int
  errors :: int
  saved_total :: int

fun process_files ::
  "lib \<Rightarrow> path list \<Rightarrow> int \<Rightarrow> bool \<Rightarrow> bool \<Rightarrow> path \<Rightarrow> world \<Rightarrow> counters
   \<Rightarrow> world \<times> counters" where
  "process_files L [] quality force move_square square_dir w c = (w, c)"
| "process_files L (f # files) quality force move_square square_dir w c =
     (case convert_file L w f quality force move_square square_dir of
        (w', Inr (status, input_size, output_size)) \<Rightarrow>
          if status = ''converted'' then
            process_files L files quality force move_square square_dir w'
              (c\<lparr>converted := converted c + 1,
                 saved_total := saved_total c + max 0 (input_size - output_size)\<rparr>)
          else
            process_files L files quality force move_square square_dir w'
              (c\<lparr>skipped := skipped c + 1\<rparr>)
      | (w', Inl exc) \<Rightarrow>
          process_files L files quality force move_square square_dir
            (log w' [Text [Lit ''Error:''], PathArg f, ExcArg exc])
            (c\<lparr>errors := errors c + 1\<rparr>))"

text \<open>
  \<open>main\<close> from the parsed arguments on (what \<^verbatim>\<open>argparse\<close> does with a malformed
  command line happens before any statement below). \<open>cwd\<close> is \<^verbatim>\<open>Path.cwd()\<close>; the
  result is the final world and the exit status of the process: 1 for
  \<^verbatim>\<open>raise SystemExit(1)\<close>, 0 when \<open>main\<close> returns.
\<close>

record args =
  arg_force :: bool
  arg_quality :: int
  arg_move_square :: bool

definition found_line :: "nat \<Rightarrow> int \<Rightarrow> bool \<Rightarrow> log_arg list" where
  "found_line n quality move_square =
     [Text ([Lit ''Found '', Dec (int n),
             Lit '' PNG file(s). Starting conversion (quality='', Dec quality, Lit '')'']
            @ (if move_square then [Lit '' (move-square enabled)''] else [])
            @ [Lit '' ...''])]"

definition main :: "lib \<Rightarrow> path \<Rightarrow> args \<Rightarrow> world \<Rightarrow> world \<times> int" where
  "main L cwd args w =
     (let root = cwd;
          images_root = root @ [''public'', ''images''];
          square_dir = root @ [''public'', ''square''] in
      if \<not> path_exists w images_root then
        (log w [Text [Lit ''Images directory not found:''], PathArg images_root], 1)
      else
        (let quality = clamp_quality (arg_quality args);
             files = collect_png_files L w images_root
                     @ (if path_exists w square_dir then collect_png_files L w square_dir
                        else []);
             w1 = log w (found_line (length files) quality (arg_move_square args));
             (w2, c) = process_files L files quality (arg_force args) (arg_move_square args)
                         square_dir w1
                         \<lparr>converted = 0, skipped = 0, errors = 0, saved_total = 0\<rparr>;
             w3 = log w2 [Text [Lit ''--- Summary ---'']];
             w4 = log w3 [Text [Lit ''Converted: '', Dec (converted c)]];
             w5 = log w4 [Text [Lit ''Skipped:   '', Dec (skipped c)]];
             w6 = log w5 [Text [Lit ''Errors:    '', Dec (errors c)]];
             w7 = log w6 [Text [Lit ''Size saved: '', KiB (saved_total c), Lit '' KiB'']]
         in if errors c \<noteq> 0 then (w7, 1) else (w7, 0)))"

subsection \<open>Names for what the loop of main sees\<close>

text \<open>
  \<open>discovered\<close> is the list \<^verbatim>\<open>files\<close> of \<open>main\<close>, \<open>loop_of_main\<close> the world and
  the counters when its loop ends, and \<open>outcomes\<close> what \<open>convert_file\<close> returned or
  raised for each file of a list, in order, each in the world the loop had reached.
\<close>

definition discovered :: "lib \<Rightarrow> path \<Rightarrow> world \<Rightarrow> path list" where
  "discovered L cwd w =
     collect_png_files L w (cwd @ [''public'', ''images''])
     @ (if path_exists w (cwd @ [''public'', ''square''])
        then collect_png_files L w (cwd @ [''public'', ''square'']) else [])"

definition loop_of_main :: "lib \<Rightarrow> path \<Rightarrow> args \<Rightarrow> world \<Rightarrow> world \<times> counters" where
  "loop_of_main L cwd args w =
     process_files L (discovered L cwd w) (clamp_quality (arg_quality args)) (arg_force args)
       (arg_move_square args) (cwd @ [''public'', ''square''])
       (log w (found_line (length (discovered L cwd w)) (clamp_quality (arg_quality args))
                 (arg_move_square args)))
       \<lparr>converted = 0, skipped = 0, errors = 0, saved_total = 0\<rparr>"

fun outcomes ::
  "lib \<Rightarrow> path list \<Rightarrow> int \<Rightarrow> bool \<Rightarrow> bool \<Rightarrow> path \<Rightarrow> world
   \<Rightarrow> (error + string \<times> int \<times> int) list" where
  "outcomes L [] quality force move_square square_dir w = []"
| "outcomes L (f # files) quality force move_square square_dir w =
     (case convert_file L w f quality force move_square square_dir of
        (w', Inr r) \<Rightarrow> Inr r # outcomes L files quality force move_square square_dir w'
      | (w', Inl exc) \<Rightarrow>
          Inl exc # outcomes L files quality force move_square square_dir
                      (log w' [Text [Lit ''Error:''], PathArg f, ExcArg exc]))"

subsection \<open>Names for parts of convert_file\<close>

text \<open>
  \<open>relocate\<close> is the \<^verbatim>\<open>if move_square and base.endswith("-square")\<close> block of
  \<open>convert_file\<close> as a function of the world after \<^verbatim>\<open>save\<close>; \<open>convert_file_relocate\<close>
  below shows that \<open>convert_file\<close> is the same function with the block replaced by it.
  \<open>square_target\<close> is the path \<^verbatim>\<open>target\<close> of that block.
\<close>

definition relocate ::
  "world \<Rightarrow> path \<Rightarrow> string \<Rightarrow> bool \<Rightarrow> bool \<Rightarrow> path \<Rightarrow> world \<times> (error + path)" where
  "relocate w1 jpg_path base force move_square square_dir =
     (if move_square \<and> endswith base ''-square'' then
        (case mkdir_parents w1 square_dir of
           Inl e \<Rightarrow> (w1, Inl e)
         | Inr w2 \<Rightarrow>
             (let clean_base = take (length base - length ''-square'') base;
                  target = square_dir @ [clean_base @ ''.jpg''] in
              if path_exists w2 target \<and> \<not> force then
                (log w2 [Text [Lit ''Exists, skip move (use --force):''], PathArg target],
                 Inr jpg_path)
              else
                (case replace_path w2 jpg_path target of
                   Inl e \<Rightarrow> (w2, Inl e)
                 | Inr w3 \<Rightarrow> (w3, Inr target))))
      else (w1, Inr jpg_path))"

definition square_target :: "path \<Rightarrow> path \<Rightarrow> path" where
  "square_target square_dir png_path =
     square_dir @ [take (length (stem png_path) - length ''-square'') (stem png_path) @ ''.jpg'']"

subsection \<open>Names for the summary and the savings\<close>

text \<open>
  \<open>saving\<close> is what one outcome of the loop adds to \<^verbatim>\<open>saved_total\<close>, and \<open>summary\<close>
  the five lines that \<open>main\<close> prints after its loop.
\<close>

definition saving :: "error + string \<times> int \<times> int \<Rightarrow> int" where
  "saving r =
     (case r of
        Inl exc \<Rightarrow> 0
      | Inr (status, input_size, output_size) \<Rightarrow>
          if status = ''converted'' then max 0 (input_size - output_size) else 0)"

definition summary :: "world \<Rightarrow> counters \<Rightarrow> world" where
  "summary w2 c =
     log (log (log (log (log w2 [Text [Lit ''--- Summary ---'']])
                      [Text [Lit ''Converted: '', Dec (converted c)]])
                 [Text [Lit ''Skipped:   '', Dec (skipped c)]])
            [Text [Lit ''Errors:    '', Dec (errors c)]])
       [Text [Lit ''Size saved: '', KiB (saved_total c), Lit '' KiB'']]"

subsection \<open>An example library and example trees\<close>

text \<open>
  A small instance on which the model runs: the decoder takes the first byte of a file as
  the only sample of a 1 x 1 \<open>L\<close> image and rejects an empty file, \<open>convert\<close>
  repeats the band of a single-band image, the encoder writes \<open>500 + 10 * s\<close> zero
  bytes for an image whose first sample is \<open>s\<close>, and the walk lists, for a directory,
  the names of \<open>ex_names\<close> that are files in it.
\<close>

definition ex_names :: "string list" where
  "ex_names = [''a.png'', ''bad.PNG'', ''b.png'', ''icon-square.png'', ''notes.txt'']"

definition ex_lib :: lib where
  "ex_lib =
     \<lparr>image_open = (\<lambda>b. case b of
                      [] \<Rightarrow> Inl (LibraryError ''cannot identify image file'')
                    | t # _ \<Rightarrow> Inr \<lparr>im_mode = ''L'', im_info = [], im_size = (1, 1),
                                   im_bands = [[t]]\<rparr>),
      convert = (\<lambda>img m. case im_bands img of
                      [l] \<Rightarrow> img\<lparr>im_mode := m, im_bands := [l, l, l]\<rparr>
                    | bs \<Rightarrow> img\<lparr>im_mode := m, im_bands := take 3 bs\<rparr>),
      jpeg_encode = (\<lambda>img q. case im_bands img of
                      (s # _) # _ \<Rightarrow> Inr (replicate (500 + 10 * unat s) 0)
                    | _ \<Rightarrow> Inl (LibraryError ''encoder error'', [])),
      walk = (\<lambda>f root. case f root of
                      Some Dir \<Rightarrow>
                        [(root, [], filter (\<lambda>n. is_file (f (root @ [n]))) ex_names)]
                    | _ \<Rightarrow> [])\<rparr>"

definition ex_dirs :: "path \<Rightarrow> node option" where
  "ex_dirs = [[] \<mapsto> Dir, [''public''] \<mapsto> Dir, [''public'', ''images''] \<mapsto> Dir]"

definition two_files :: world where
  "two_files =
     \<lparr>fs = ex_dirs([''public'', ''images'', ''a.png''] \<mapsto> File (10 # replicate 999 0),
                   [''public'', ''images'', ''b.png''] \<mapsto> File (20 # replicate 499 0)),
      stdout = []\<rparr>"

definition mixed :: world where
  "mixed =
     \<lparr>fs = ex_dirs([''public'', ''images'', ''a.png''] \<mapsto> File (10 # replicate 999 0),
                   [''public'', ''images'', ''bad.PNG''] \<mapsto> File [],
                   [''public'', ''images'', ''b.png''] \<mapsto> File (20 # replicate 499 0),
                   [''public'', ''images'', ''b.jpg''] \<mapsto> File [1, 2, 3]),
      stdout = []\<rparr>"

definition ex_args :: args where
  "ex_args = \<lparr>arg_force = False, arg_quality = 82, arg_move_square = False\<rparr>"

definition empty_tree :: world where
  "empty_tree = \<lparr>fs = ex_dirs, stdout = []\<rparr>"

definition no_images :: world where
  "no_images = \<lparr>fs = [[] \<mapsto> Dir, [''public''] \<mapsto> Dir], stdout = []\<rparr>"

definition square_fresh :: world where
  "square_fresh =
     \<lparr>fs = ex_dirs([''public'', ''images'', ''icon-square.png''] \<mapsto> File (10 # replicate 999 0)),
      stdout = []\<rparr>"

definition square_taken :: world where
  "square_taken =
     \<lparr>fs = ex_dirs([''public'', ''images'', ''icon-square.png''] \<mapsto> File (10 # replicate 999 0),
                   [''public'', ''square''] \<mapsto> Dir,
                   [''public'', ''square'', ''icon.jpg''] \<mapsto> File [7]),
      stdout = []\<rparr>"

text \<open>
  Three images: a grey image of one black pixel with transparency metadata, an
  \<open>RGBA\<close> image of a fully transparent and a fully opaque pixel, and a palette image
  without transparency metadata.
\<close>

definition gray_transparent :: image where
  "gray_transparent =
     \<lparr>im_mode = ''L'', im_info = [''transparency''], im_size = (1, 1), im_bands = [[0]]\<rparr>"

definition rgba_two :: image where
  "rgba_two =
     \<lparr>im_mode = ''RGBA'', im_info = [], im_size = (2, 1),
      im_bands = [[10, 40], [20, 50], [30, 60], [0, 255]]\<rparr>"

definition palette_plain :: image where
  "palette_plain =
     \<lparr>im_mode = ''P'', im_info = [], im_size = (1, 1), im_bands = [[5]]\<rparr>"

section \<open>Pasting and flattening\<close>

lemma div255_exact: "x < 256 \<Longrightarrow> div255 (x * 255) = x"
  unfolding div255_def Let_def by arith

lemma blend8_transparent: "blend8 0 a b = a"
proof -
  have "unat a < 256" using unsigned_less[of a] by simp
  then show ?thesis by (simp add: blend8_def div255_exact)
qed

lemma blend8_opaque: "blend8 255 a b = b"
proof -
  have "unat b < 256" using unsigned_less[of b] by simp
  then show ?thesis by (simp add: blend8_def div255_exact)
qed

lemma paste_band_nth:
  "i < length ms \<Longrightarrow> i < length out \<Longrightarrow> i < length inp \<Longrightarrow>
   paste_band f ms out inp ! i = f (ms ! i) (out ! i) (inp ! i)"
  by (simp add: paste_band_def)

lemma paste_band_length:
  "length (paste_band f ms out inp) = min (length ms) (min (length out) (length inp))"
  by (simp add: paste_band_def)

lemma flatten_rgba:
  assumes "im_mode img = ''RGBA''" and "im_bands img = [r, g, b, a]"
  shows "flatten_to_rgb L img =
           Inr \<lparr>im_mode = ''RGB'', im_info = [], im_size = im_size img,
                im_bands =
                  [paste_band blend8 a (replicate (fst (im_size img) * snd (im_size img)) 255) r,
                   paste_band blend8 a (replicate (fst (im_size img) * snd (im_size img)) 255) g,
                   paste_band blend8 a (replicate (fst (im_size img) * snd (im_size img)) 255) b]\<rparr>"
  using assms
  by (simp add: flatten_to_rgb_def image_paste_def image_split_def image_new_rgb_def
      storage_bands_def Let_def)

lemma flatten_la:
  assumes "im_mode img = ''LA''" and "im_bands img = [l, a]"
  shows "flatten_to_rgb L img =
           Inr \<lparr>im_mode = ''RGB'', im_info = [], im_size = im_size img,
                im_bands =
                  [paste_band blend8 a (replicate (fst (im_size img) * snd (im_size img)) 255) l,
                   paste_band blend8 a (replicate (fst (im_size img) * snd (im_size img)) 255) l,
                   paste_band blend8 a (replicate (fst (im_size img) * snd (im_size img)) 255) l]\<rparr>"
  using assms
  by (simp add: flatten_to_rgb_def image_paste_def image_split_def image_new_rgb_def
      storage_bands_def Let_def)

lemma white_or_source:
  assumes "i < n" "length a = n" "length x = n"
  shows "(a ! i = 0 \<longrightarrow> paste_band blend8 a (replicate n 255) x ! i = 255)
         \<and> (a ! i = 255 \<longrightarrow> paste_band blend8 a (replicate n 255) x ! i = x ! i)"
  using assms by (simp add: paste_band_nth blend8_transparent blend8_opaque)

lemma flatten_palette_transparency_raises:
  assumes "im_mode img = ''P''" and "''transparency'' \<in> set (im_info img)"
    and "length (im_bands img) \<le> 1"
  shows "\<exists>msg. flatten_to_rgb L img = Inl (ValueError msg)"
  using assms
  by (simp add: flatten_to_rgb_def image_paste_def image_split_def Let_def)

section \<open>Paths, the file system and the steps of convert_file\<close>

lemma rfind_less: "rfind c s = Some i \<Longrightarrow> i < length s"
  by (induction s arbitrary: i) (auto split: option.splits if_splits)

lemma with_suffix_Inr:
  assumes "with_suffix p sfx = Inr j"
  shows "j = butlast p @ [stem p @ sfx] \<and> p \<noteq> [] \<and> name_of p = last p"
proof -
  from assms have ne: "name_of p \<noteq> []"
    by (auto simp: with_suffix_def Let_def split: if_splits)
  then have p: "p \<noteq> []" by (auto simp: name_of_def)
  then have n: "name_of p = last p"
    by (cases p rule: rev_cases) (auto simp: name_of_def)
  have "j = butlast p @ [stem p @ sfx]"
    using assms ne
    by (auto simp: with_suffix_def suffix_of_def stem_def Let_def
        split: if_splits option.splits dest: rfind_less)
  with p n show ?thesis by simp
qed

lemma lower_append: "lower (a @ b) = lower a @ lower b"
  by (simp add: lower_def)

lemma lower_jpg: "lower ''.jpg'' = ''.jpg''"
  by (simp add: lower_def lower_char_def)

lemma not_png_if_jpg: "endswith (lower (x @ ''.jpg'')) ''.png'' \<Longrightarrow> False"
  by (simp add: endswith_def lower_append lower_jpg)

lemma png_ne_jpg:
  assumes "endswith (lower (name_of p)) ''.png''" "with_suffix p ''.jpg'' = Inr j"
  shows "j \<noteq> p"
proof
  assume "j = p"
  with with_suffix_Inr[OF assms(2)] have "p = butlast p @ [stem p @ ''.jpg'']" "p \<noteq> []" "name_of p = last p" by auto
  then have "name_of p = stem p @ ''.jpg''"
    by (metis last_snoc)
  with assms(1) show False using not_png_if_jpg by simp
qed

lemma png_ne_target:
  assumes "endswith (lower (name_of p)) ''.png''"
  shows "sq @ [c @ ''.jpg''] \<noteq> p"
proof
  assume "sq @ [c @ ''.jpg''] = p"
  then have "name_of p = c @ ''.jpg''" by (auto simp: name_of_def)
  with assms show False using not_png_if_jpg by simp
qed

lemma target_ne_jpg:
  assumes "endswith base ''-square''"
  shows "sq @ [take (length base - length ''-square'') base @ ''.jpg''] \<noteq> d @ [base @ ''.jpg'']"
proof
  assume "sq @ [take (length base - length ''-square'') base @ ''.jpg''] = d @ [base @ ''.jpg'']"
  then have le: "length base \<le> length base - Suc (Suc (Suc (Suc (Suc (Suc (Suc 0))))))"
    by simp
  have "Suc (Suc (Suc (Suc (Suc (Suc (Suc 0)))))) \<le> length base"
    using assms by (simp add: endswith_def)
  with le show False by arith
qed

lemma target_not_prefix: "sq @ [x] \<notin> set (prefixes sq)"
  by (simp add: prefix_def)

lemma convert_file_relocate:
  "convert_file L w png_path quality force move_square square_dir =
     (case with_suffix png_path ''.jpg'' of
        Inl e \<Rightarrow> (w, Inl e)
      | Inr jpg_path \<Rightarrow>
          if path_exists w jpg_path \<and> \<not> force then (w, Inr (''skipped'', 0, 0))
          else
            (case stat_size w png_path of
               Inl e \<Rightarrow> (w, Inl e)
             | Inr input_size \<Rightarrow>
            (case open_image L w png_path of
               Inl e \<Rightarrow> (w, Inl e)
             | Inr img \<Rightarrow>
            (case flatten_to_rgb L img of
               Inl e \<Rightarrow> (w, Inl e)
             | Inr rgb \<Rightarrow>
            (case save_jpeg L w rgb jpg_path quality of
               (w1, Inl e) \<Rightarrow> (w1, Inl e)
             | (w1, Inr _) \<Rightarrow>
            (case relocate w1 jpg_path (stem png_path) force move_square square_dir of
               (w4, Inl e) \<Rightarrow> (w4, Inl e)
             | (w4, Inr jpg_final) \<Rightarrow>
            (case unlink w4 png_path of
               Inl e \<Rightarrow> (w4, Inl e)
             | Inr w5 \<Rightarrow>
            (case stat_size w5 jpg_final of
               Inl e \<Rightarrow> (w5, Inl e)
             | Inr output_size \<Rightarrow>
                 (w5, Inr (''converted'', input_size, output_size))))))))))"
  unfolding convert_file_def relocate_def Let_def by (rule refl)

lemma log_fs [simp]: "fs (log w a) = fs w"
  by (simp add: log_def)

lemma log_stdout [simp]: "stdout (log w a) = stdout w @ [Text [Lit ''[png2jpg]''] # a]"
  by (simp add: log_def)

lemma stat_size_log [simp]: "stat_size (log w a) p = stat_size w p"
  by (simp add: stat_size_def)

lemma save_jpeg_ok:
  assumes "save_jpeg L w img p q = (w1, Inr u)"
  shows "\<exists>b. jpeg_encode L img q = Inr b \<and> w1 = w\<lparr>fs := (fs w)(p \<mapsto> File b)\<rparr>"
  using assms
  by (auto simp: save_jpeg_def split: option.splits node.splits sum.splits prod.splits if_splits)

lemma save_jpeg_frame:
  assumes "save_jpeg L w img p q = (w1, r)"
  shows "stdout w1 = stdout w \<and> (\<forall>x. x \<noteq> p \<longrightarrow> fs w1 x = fs w x)"
  using assms
  by (auto simp: save_jpeg_def split: option.splits node.splits sum.splits prod.splits if_splits)

lemma mkdir_parents_stdout:
  "mkdir_parents w d = Inr w2 \<Longrightarrow> stdout w2 = stdout w"
  by (auto simp: mkdir_parents_def is_file_def split: if_splits option.splits node.splits)

lemma mkdir_parents_keep:
  "mkdir_parents w d = Inr w2 \<Longrightarrow> fs w x \<noteq> None \<Longrightarrow> fs w2 x = fs w x"
  by (auto simp: mkdir_parents_def is_file_def split: if_splits option.splits node.splits)

lemma mkdir_parents_outside:
  "mkdir_parents w d = Inr w2 \<Longrightarrow> x \<notin> set (prefixes d) \<Longrightarrow> fs w2 x = fs w x"
  by (auto simp: mkdir_parents_def is_file_def split: if_splits option.splits node.splits)

lemma mkdir_parents_ok:
  assumes "mkdir_parents w d = Inr w2"
  shows "stdout w2 = stdout w
         \<and> (\<forall>x. fs w x \<noteq> None \<longrightarrow> fs w2 x = fs w x)
         \<and> (\<forall>x. x \<notin> set (prefixes d) \<longrightarrow> fs w2 x = fs w x)
         \<and> (\<forall>x b. fs w2 x = Some (File b) \<longrightarrow> fs w x = Some (File b))"
  using assms
  by (auto simp: mkdir_parents_def is_file_def split: if_splits option.splits node.splits)

lemma replace_path_ok:
  assumes "replace_path w src dst = Inr w3"
  shows "\<exists>b. fs w src = Some (File b) \<and> w3 = w\<lparr>fs := (fs w)(src := None, dst \<mapsto> File b)\<rparr>"
  using assms
  by (auto simp: replace_path_def split: option.splits node.splits)

lemma unlink_ok:
  assumes "unlink w p = Inr w5"
  shows "\<exists>b. fs w p = Some (File b) \<and> w5 = w\<lparr>fs := (fs w)(p := None)\<rparr>"
  using assms
  by (auto simp: unlink_def split: option.splits node.splits)

lemma stat_size_ok:
  assumes "stat_size w p = Inr n"
  shows "fs w p \<noteq> None \<and> (\<forall>b. fs w p = Some (File b) \<longrightarrow> n = int (length b))"
  using assms
  by (auto simp: stat_size_def split: option.splits node.splits)

lemma open_image_ok:
  assumes "open_image L w p = Inr img"
  shows "\<exists>b. fs w p = Some (File b) \<and> image_open L b = Inr img"
  using assms
  by (auto simp: open_image_def split: option.splits node.splits)

lemma relocate_frame:
  assumes "relocate w1 jpg base force ms sq = (w4, r)"
    and "fs w1 x = Some (File b)" and "x \<noteq> jpg"
    and "x \<noteq> sq @ [take (length base - length ''-square'') base @ ''.jpg'']"
  shows "fs w4 x = Some (File b)"
  using assms
  by (auto simp: relocate_def Let_def split: if_splits sum.splits
      dest!: mkdir_parents_ok replace_path_ok)

lemma relocate_ok:
  assumes "relocate w1 jpg base force ms sq = (w4, Inr jf)"
    and "fs w1 jpg = Some (File b)"
  shows "fs w4 jf = Some (File b)
         \<and> (jf = jpg \<or> jf = sq @ [take (length base - length ''-square'') base @ ''.jpg''])"
  using assms
  by (auto simp: relocate_def Let_def split: if_splits sum.splits
      dest!: mkdir_parents_ok replace_path_ok)

lemma rfind_None: "c \<notin> set ys \<Longrightarrow> rfind c ys = None"
  by (induction ys) auto

lemma rfind_last: "c \<notin> set ys \<Longrightarrow> rfind c (xs @ c # ys) = Some (length xs)"
  by (induction xs) (auto simp: rfind_None)

lemma name_of_snoc: "name_of (d @ [n]) = n"
  by (simp add: name_of_def)

lemma stem_jpg_name:
  assumes "name_of p = c @ ''.jpg''"
  shows "stem p = (if c = [] then ''.jpg'' else c)"
proof -
  have "rfind CHR ''.'' (c @ CHR ''.'' # ''jpg'') = Some (length c)"
    by (rule rfind_last) simp
  then have r: "rfind CHR ''.'' (name_of p) = Some (length c)"
    using assms by simp
  have l: "length (name_of p) = length c + 4" using assms by simp
  show ?thesis
    unfolding stem_def Let_def r option.case l using assms by simp
qed

lemma square_target_ne_png:
  assumes "endswith (stem p) ''-square''"
  shows "square_target sq p \<noteq> p"
proof
  let ?c = "take (length (stem p) - length ''-square'') (stem p)"
  assume "square_target sq p = p"
  then have "name_of p = name_of (sq @ [?c @ ''.jpg''])"
    by (simp only: square_target_def)
  then have "name_of p = ?c @ ''.jpg''" by (simp only: name_of_snoc)
  then have s: "stem p = (if ?c = [] then ''.jpg'' else ?c)" by (rule stem_jpg_name)
  have len: "Suc (Suc (Suc (Suc (Suc (Suc (Suc 0)))))) \<le> length (stem p)"
    using assms by (simp add: endswith_def)
  show False
  proof (cases "?c = []")
    case True
    then have "(if ?c = [] then ''.jpg'' else ?c) = ''.jpg''" by (rule if_P)
    with s have "stem p = ''.jpg''" by (rule trans)
    then have "length (stem p) = 4" by simp
    with len show False by simp
  next
    case False
    then have "(if ?c = [] then ''.jpg'' else ?c) = ?c" by (rule if_not_P)
    with s have "stem p = ?c" by (rule trans)
    then have "length (stem p) = length ?c" by (rule arg_cong)
    then have "length (stem p) \<le> length (stem p) - Suc (Suc (Suc (Suc (Suc (Suc (Suc 0))))))"
      by simp
    with len show False by arith
  qed
qed

lemma with_suffix_nonempty:
  "name_of p \<noteq> [] \<Longrightarrow> with_suffix p sfx = Inr (butlast p @ [stem p @ sfx])"
proof -
  assume ne: "name_of p \<noteq> []"
  then have "\<exists>j. with_suffix p sfx = Inr j"
    by (simp add: with_suffix_def Let_def)
  then obtain j where j: "with_suffix p sfx = Inr j" ..
  from with_suffix_Inr[OF j] have "j = butlast p @ [stem p @ sfx]" by (rule conjunct1)
  with j show ?thesis by (simp only:)
qed

lemma convert_file_converted_parts:
  assumes conv: "convert_file L w p q force ms sq = (w', Inr (''converted'', i, out))"
  obtains jpg img rgb b w4 jf where
    "with_suffix p ''.jpg'' = Inr jpg" and "\<not> (path_exists w jpg \<and> \<not> force)"
    and "stat_size w p = Inr i" and "open_image L w p = Inr img"
    and "flatten_to_rgb L img = Inr rgb" and "jpeg_encode L rgb q = Inr b"
    and "relocate (w\<lparr>fs := (fs w)(jpg \<mapsto> File b)\<rparr>) jpg (stem p) force ms sq = (w4, Inr jf)"
    and "fs w4 p \<noteq> None" and "jf \<noteq> p" and "fs w4 jf = Some (File b)"
    and "w' = w4\<lparr>fs := (fs w4)(p := None)\<rparr>" and "out = int (length b)"
proof -
  from conv obtain jpg where j: "with_suffix p ''.jpg'' = Inr jpg"
    by (auto simp: convert_file_relocate split: sum.splits)
  from conv j have nskip: "\<not> (path_exists w jpg \<and> \<not> force)"
    by (auto simp: convert_file_relocate split: if_splits)
  from conv j nskip obtain img rgb w1 u w4 jf where
    st: "stat_size w p = Inr i" and op: "open_image L w p = Inr img"
    and fl: "flatten_to_rgb L img = Inr rgb"
    and sv: "save_jpeg L w rgb jpg q = (w1, Inr u)"
    and rl: "relocate w1 jpg (stem p) force ms sq = (w4, Inr jf)"
    and ul: "unlink w4 p = Inr w'" and so: "stat_size w' jf = Inr out"
    by (auto simp: convert_file_relocate split: sum.splits prod.splits if_splits)
  from save_jpeg_ok[OF sv] obtain b where
    enc: "jpeg_encode L rgb q = Inr b" and w1: "w1 = w\<lparr>fs := (fs w)(jpg \<mapsto> File b)\<rparr>"
    by blast
  from w1 have "fs w1 jpg = Some (File b)" by simp
  from relocate_ok[OF rl this] have jf: "fs w4 jf = Some (File b)" by simp
  from unlink_ok[OF ul] obtain pb where
    pb: "fs w4 p = Some (File pb)" and w': "w' = w4\<lparr>fs := (fs w4)(p := None)\<rparr>" by blast
  from stat_size_ok[OF so] w' have ne: "jf \<noteq> p" by auto
  with jf w' have "fs w' jf = Some (File b)" by simp
  with stat_size_ok[OF so] have out: "out = int (length b)" by simp
  from pb have pb': "fs w4 p \<noteq> None" by simp
  show thesis
    by (rule that[OF j nskip st op fl enc rl[unfolded w1] pb' ne jf w' out])
qed

lemma convert_file_source_kept:
  assumes cf: "convert_file L w p q force ms sq = (w', r)"
    and png: "endswith (lower (name_of p)) ''.png''"
    and changed: "fs w' p \<noteq> fs w p"
  shows "\<exists>i out. r = Inr (''converted'', i, out)"
proof -
  from cf changed obtain jpg where j: "with_suffix p ''.jpg'' = Inr jpg"
    by (auto simp: convert_file_relocate split: sum.splits)
  from png_ne_jpg[OF png j] have pj: "p \<noteq> jpg" by simp
  from cf changed j have nskip: "\<not> (path_exists w jpg \<and> \<not> force)"
    by (auto simp: convert_file_relocate split: if_splits)
  from cf changed j nskip obtain i img rgb where
    st: "stat_size w p = Inr i" and op: "open_image L w p = Inr img"
    and fl: "flatten_to_rgb L img = Inr rgb"
    by (auto simp: convert_file_relocate split: sum.splits)
  from open_image_ok[OF op] obtain pb where pb: "fs w p = Some (File pb)" by blast
  obtain w1 r1 where sv: "save_jpeg L w rgb jpg q = (w1, r1)" by (cases "save_jpeg L w rgb jpg q")
  from save_jpeg_frame[OF sv] pj have p1: "fs w1 p = Some (File pb)" by (simp add: pb)
  from cf changed j nskip st op fl sv p1 pb obtain u where u: "r1 = Inr u"
    by (cases r1) (auto simp: convert_file_relocate)
  from save_jpeg_ok[OF sv[unfolded u]] obtain b where
    j1: "fs w1 jpg = Some (File b)" by auto
  obtain w4 r4 where rl: "relocate w1 jpg (stem p) force ms sq = (w4, r4)"
    by (cases "relocate w1 jpg (stem p) force ms sq")
  have pt: "p \<noteq> sq @ [take (length (stem p) - length ''-square'') (stem p) @ ''.jpg'']"
    using png_ne_target[OF png] by metis
  from relocate_frame[OF rl p1 pj pt] have p4: "fs w4 p = Some (File pb)" .
  from cf changed j nskip st op fl sv u rl p4 pb obtain jf where jf: "r4 = Inr jf"
    by (cases r4) (auto simp: convert_file_relocate)
  from relocate_ok[OF rl[unfolded jf] j1] have
    j4: "fs w4 jf = Some (File b)"
    and jfc: "jf = jpg \<or> jf = sq @ [take (length (stem p) - length ''-square'') (stem p) @ ''.jpg'']"
    by simp_all
  from jfc pj pt have jfp: "jf \<noteq> p" by auto
  have ul: "unlink w4 p = Inr (w4\<lparr>fs := (fs w4)(p := None)\<rparr>)"
    using p4 by (simp add: unlink_def)
  have so: "stat_size (w4\<lparr>fs := (fs w4)(p := None)\<rparr>) jf = Inr (int (length b))"
    using j4 jfp by (simp add: stat_size_def)
  from cf j nskip st op fl sv u rl jf ul so show ?thesis
    by (auto simp: convert_file_relocate)
qed

lemma relocate_square:
  assumes rl: "relocate w1 jpg base force True sq = (w4, Inr jf)"
    and sqn: "endswith base ''-square''"
    and j1: "fs w1 jpg = Some (File b)"
    and ne: "sq @ [take (length base - length ''-square'') base @ ''.jpg''] \<noteq> jpg"
  shows "if path_exists w1 (sq @ [take (length base - length ''-square'') base @ ''.jpg'']) \<and> \<not> force
         then jf = jpg \<and> fs w4 jpg = Some (File b)
              \<and> fs w4 (sq @ [take (length base - length ''-square'') base @ ''.jpg''])
                  = fs w1 (sq @ [take (length base - length ''-square'') base @ ''.jpg''])
              \<and> stdout w4 = stdout w1 @ [[Text [Lit ''[png2jpg]''],
                     Text [Lit ''Exists, skip move (use --force):''],
                     PathArg (sq @ [take (length base - length ''-square'') base @ ''.jpg''])]]
         else jf = sq @ [take (length base - length ''-square'') base @ ''.jpg'']
              \<and> fs w4 jf = Some (File b) \<and> fs w4 jpg = None \<and> stdout w4 = stdout w1"
proof -
  let ?t = "sq @ [take (length base - length ''-square'') base @ ''.jpg'']"
  from rl sqn obtain w2 where mk: "mkdir_parents w1 sq = Inr w2"
    by (cases "mkdir_parents w1 sq") (auto simp: relocate_def)
  note so = mkdir_parents_stdout[OF mk]
  note keep = mkdir_parents_keep[OF mk]
  note out = mkdir_parents_outside[OF mk]
  have t2: "fs w2 ?t = fs w1 ?t" by (rule out) (rule target_not_prefix)
  have j2: "fs w2 jpg = Some (File b)" using keep[of jpg] j1 by simp
  show ?thesis
  proof (cases "path_exists w1 ?t \<and> \<not> force")
    case True
    then have "path_exists w2 ?t \<and> \<not> force" using t2 by (simp add: path_exists_def)
    with rl sqn mk have "w4 = log w2 [Text [Lit ''Exists, skip move (use --force):''], PathArg ?t]"
      and "jf = jpg"
      by (auto simp: relocate_def Let_def)
    with True t2 j2 so show ?thesis by simp
  next
    case False
    then have n2: "\<not> (path_exists w2 ?t \<and> \<not> force)" using t2 by (simp add: path_exists_def)
    with rl sqn mk obtain w3 where rp: "replace_path w2 jpg ?t = Inr w3" and w4: "w4 = w3"
      and jf: "jf = ?t"
      by (cases "replace_path w2 jpg ?t") (auto simp: relocate_def Let_def)
    from replace_path_ok[OF rp] j2 have "w3 = w2\<lparr>fs := (fs w2)(jpg := None, ?t \<mapsto> File b)\<rparr>"
      by auto
    with False w4 jf ne so show ?thesis by simp
  qed
qed

section \<open>The loop and main\<close>

lemma main_missing:
  "\<not> path_exists w (cwd @ [''public'', ''images'']) \<Longrightarrow>
   main L cwd a w =
     (log w [Text [Lit ''Images directory not found:''], PathArg (cwd @ [''public'', ''images''])], 1)"
  by (simp add: main_def)

lemma main_runs_loop:
  "path_exists w (cwd @ [''public'', ''images'']) \<Longrightarrow>
   main L cwd a w =
     (summary (fst (loop_of_main L cwd a w)) (snd (loop_of_main L cwd a w)),
      if errors (snd (loop_of_main L cwd a w)) \<noteq> 0 then 1 else 0)"
  unfolding main_def loop_of_main_def discovered_def summary_def Let_def
  by (simp add: case_prod_beta)

lemma process_files_append:
  "process_files L (xs @ ys) q force ms sq w c =
     (case process_files L xs q force ms sq w c of
        (w1, c1) \<Rightarrow> process_files L ys q force ms sq w1 c1)"
  by (induction xs arbitrary: w c) (auto split: prod.splits sum.splits)

lemma process_files_counts:
  "process_files L files q force ms sq w c = (w', c') \<Longrightarrow>
     converted c' + skipped c' + errors c' = converted c + skipped c + errors c + int (length files)
     \<and> converted c \<le> converted c' \<and> skipped c \<le> skipped c' \<and> errors c \<le> errors c'
     \<and> saved_total c \<le> saved_total c'"
proof (induction files arbitrary: w c)
  case Nil
  then show ?case by simp
next
  case (Cons f files)
  obtain w1 r where cf: "convert_file L w f q force ms sq = (w1, r)"
    by (cases "convert_file L w f q force ms sq")
  show ?case
  proof (cases r)
    case (Inl exc)
    with Cons.prems cf have
      "process_files L files q force ms sq (log w1 [Text [Lit ''Error:''], PathArg f, ExcArg exc])
         (c\<lparr>errors := errors c + 1\<rparr>) = (w', c')" by simp
    from Cons.IH[OF this] show ?thesis by simp
  next
    case (Inr t)
    obtain s i out where t: "t = (s, i, out)" by (cases t)
    show ?thesis
    proof (cases "s = ''converted''")
      case True
      with Cons.prems cf Inr t have
        "process_files L files q force ms sq w1
           (c\<lparr>converted := converted c + 1, saved_total := saved_total c + max 0 (i - out)\<rparr>)
         = (w', c')" by simp
      from Cons.IH[OF this] show ?thesis by (simp add: max_def split: if_splits)
    next
      case False
      with Cons.prems cf Inr t have
        "process_files L files q force ms sq w1 (c\<lparr>skipped := skipped c + 1\<rparr>) = (w', c')"
        by simp
      from Cons.IH[OF this] show ?thesis by simp
    qed
  qed
qed

lemma process_files_outcomes:
  "process_files L files q force ms sq w c = (w', c') \<Longrightarrow>
     saved_total c' = saved_total c + sum_list (map saving (outcomes L files q force ms sq w))
     \<and> errors c' = errors c + int (length (filter isl (outcomes L files q force ms sq w)))
     \<and> length (outcomes L files q force ms sq w) = length files"
proof (induction files arbitrary: w c)
  case Nil
  then show ?case by simp
next
  case (Cons f files)
  obtain w1 r where cf: "convert_file L w f q force ms sq = (w1, r)"
    by (cases "convert_file L w f q force ms sq")
  show ?case
  proof (cases r)
    case (Inl exc)
    with Cons.prems cf have
      "process_files L files q force ms sq (log w1 [Text [Lit ''Error:''], PathArg f, ExcArg exc])
         (c\<lparr>errors := errors c + 1\<rparr>) = (w', c')" by simp
    from Cons.IH[OF this] cf Inl show ?thesis by (simp add: saving_def)
  next
    case (Inr t)
    obtain s i out where t: "t = (s, i, out)" by (cases t)
    show ?thesis
    proof (cases "s = ''converted''")
      case True
      with Cons.prems cf Inr t have
        "process_files L files q force ms sq w1
           (c\<lparr>converted := converted c + 1, saved_total := saved_total c + max 0 (i - out)\<rparr>)
         = (w', c')" by simp
      from Cons.IH[OF this] cf Inr t True show ?thesis by (simp add: saving_def)
    next
      case False
      with Cons.prems cf Inr t have
        "process_files L files q force ms sq w1 (c\<lparr>skipped := skipped c + 1\<rparr>) = (w', c')"
        by simp
      from Cons.IH[OF this] cf Inr t False show ?thesis by (simp add: saving_def)
    qed
  qed
qed

text \<open>Standard output only grows: every step appends to it or leaves it alone.\<close>

lemma save_jpeg_stdout: "save_jpeg L w img p q = (w1, r) \<Longrightarrow> stdout w1 = stdout w"
  by (auto simp: save_jpeg_def split: option.splits node.splits sum.splits prod.splits if_splits)

lemma replace_path_stdout: "replace_path w src dst = Inr w3 \<Longrightarrow> stdout w3 = stdout w"
  by (auto simp: replace_path_def split: option.splits node.splits)

lemma unlink_stdout: "unlink w p = Inr w5 \<Longrightarrow> stdout w5 = stdout w"
  by (auto simp: unlink_def split: option.splits node.splits)

lemma relocate_stdout:
  assumes "relocate w1 jpg base force ms sq = (w4, r)"
  shows "prefix (stdout w1) (stdout w4)"
proof (cases "ms \<and> endswith base ''-square''")
  case False
  with assms show ?thesis by (auto simp: relocate_def)
next
  case True
  show ?thesis
  proof (cases "mkdir_parents w1 sq")
    case (Inl e)
    with assms True show ?thesis by (auto simp: relocate_def)
  next
    case (Inr w2)
    note s2 = mkdir_parents_stdout[OF Inr]
    let ?t = "sq @ [take (length base - length ''-square'') base @ ''.jpg'']"
    show ?thesis
    proof (cases "path_exists w2 ?t \<and> \<not> force")
      case skip: True
      with assms True Inr have "w4 = log w2 [Text [Lit ''Exists, skip move (use --force):''], PathArg ?t]"
        by (auto simp: relocate_def Let_def)
      with s2 show ?thesis by simp
    next
      case move: False
      show ?thesis
      proof (cases "replace_path w2 jpg ?t")
        case (Inl e)
        with assms True Inr move have "w4 = w2" by (auto simp: relocate_def Let_def)
        with s2 show ?thesis by simp
      next
        case r: (Inr w3)
        with assms True Inr move have "w4 = w3" by (auto simp: relocate_def Let_def)
        with s2 replace_path_stdout[OF r] show ?thesis by simp
      qed
    qed
  qed
qed

lemma convert_file_stdout:
  assumes cf: "convert_file L w p q force ms sq = (w', r)"
  shows "prefix (stdout w) (stdout w')"
proof (cases "with_suffix p ''.jpg''")
  case (Inl e)
  with cf show ?thesis by (simp add: convert_file_relocate)
next
  case j: (Inr jpg)
  show ?thesis
  proof (cases "path_exists w jpg \<and> \<not> force")
    case True
    with cf j show ?thesis by (auto simp: convert_file_relocate)
  next
    case nskip: False
    show ?thesis
    proof (cases "stat_size w p")
      case (Inl e)
      with cf j nskip show ?thesis by (auto simp: convert_file_relocate)
    next
      case st: (Inr i)
      show ?thesis
      proof (cases "open_image L w p")
        case (Inl e)
        with cf j nskip st show ?thesis by (auto simp: convert_file_relocate)
      next
        case op: (Inr img)
        show ?thesis
        proof (cases "flatten_to_rgb L img")
          case (Inl e)
          with cf j nskip st op show ?thesis by (auto simp: convert_file_relocate)
        next
          case fl: (Inr rgb)
          obtain w1 r1 where sv: "save_jpeg L w rgb jpg q = (w1, r1)"
            by (cases "save_jpeg L w rgb jpg q")
          note s1 = save_jpeg_stdout[OF sv]
          show ?thesis
          proof (cases r1)
            case (Inl e)
            with cf j nskip st op fl sv have "w' = w1" by (auto simp: convert_file_relocate)
            with s1 show ?thesis by simp
          next
            case u: (Inr u)
            obtain w4 r4 where rl: "relocate w1 jpg (stem p) force ms sq = (w4, r4)"
              by (cases "relocate w1 jpg (stem p) force ms sq")
            from relocate_stdout[OF rl] s1 have p4: "prefix (stdout w) (stdout w4)" by simp
            show ?thesis
            proof (cases r4)
              case (Inl e)
              with cf j nskip st op fl sv u rl have "w' = w4" by (auto simp: convert_file_relocate)
              with p4 show ?thesis by simp
            next
              case jf: (Inr jf)
              show ?thesis
              proof (cases "unlink w4 p")
                case (Inl e)
                with cf j nskip st op fl sv u rl jf have "w' = w4"
                  by (auto simp: convert_file_relocate)
                with p4 show ?thesis by simp
              next
                case ul: (Inr w5)
                with cf j nskip st op fl sv u rl jf have "w' = w5"
                  by (cases "stat_size w5 jf") (auto simp: convert_file_relocate)
                with p4 unlink_stdout[OF ul] show ?thesis by simp
              qed
            qed
          qed
        qed
      qed
    qed
  qed
qed

lemma process_files_stdout:
  "prefix (stdout w) (stdout (fst (process_files L files q force ms sq w c)))"
proof (induction files arbitrary: w c)
  case Nil
  show ?case by simp
next
  case (Cons f files)
  obtain w1 r where cf: "convert_file L w f q force ms sq = (w1, r)"
    by (cases "convert_file L w f q force ms sq")
  note p1 = convert_file_stdout[OF cf]
  show ?case
  proof (cases r)
    case (Inl exc)
    let ?w = "log w1 [Text [Lit ''Error:''], PathArg f, ExcArg exc]"
    have "prefix (stdout w) (stdout ?w)" using p1 by (auto simp: prefix_def)
    also have "prefix (stdout ?w) (stdout (fst (process_files L files q force ms sq ?w
                  (c\<lparr>errors := errors c + 1\<rparr>))))" by (rule Cons.IH)
    finally show ?thesis using cf Inl by simp
  next
    case (Inr t)
    obtain s i out where t: "t = (s, i, out)" by (cases t)
    show ?thesis
    proof (cases "s = ''converted''")
      case True
      from p1 Cons.IH[of w1] have "prefix (stdout w) (stdout (fst (process_files L files q force ms sq w1
           (c\<lparr>converted := converted c + 1, saved_total := saved_total c + max 0 (i - out)\<rparr>))))"
        by (rule prefix_order.trans)
      with cf Inr t True show ?thesis by simp
    next
      case False
      from p1 Cons.IH[of w1] have "prefix (stdout w) (stdout (fst (process_files L files q force ms sq w1
           (c\<lparr>skipped := skipped c + 1\<rparr>))))"
        by (rule prefix_order.trans)
      with cf Inr t False show ?thesis by simp
    qed
  qed
qed

section \<open>The example evaluated\<close>

lemma is_file_simps [simp]:
  "is_file (Some (File c)) = True"
  "is_file None = False"
  "is_file (Some Dir) = False"
  by (simp_all add: is_file_def)

lemma lower_char_simps:
  "lower ''a.png'' = ''a.png''" "lower ''b.png'' = ''b.png''"
  "lower ''icon-square.png'' = ''icon-square.png''" "lower ''bad.PNG'' = ''bad.png''"
  "lower ''notes.txt'' = ''notes.txt''"
  by (simp_all add: lower_def lower_char_def)

lemma two_files_discovered:
  "discovered ex_lib [] two_files = [[''public'', ''images'', ''a.png''], [''public'', ''images'', ''b.png'']]"
  by (simp add: discovered_def collect_png_files_def ex_lib_def two_files_def ex_dirs_def
      ex_names_def path_exists_def lower_char_simps endswith_def)

lemmas ex_eval = convert_file_def with_suffix_def suffix_of_def stem_def name_of_def
      path_exists_def ex_dirs_def ex_lib_def stat_size_def open_image_def
      flatten_to_rgb_def save_jpeg_def endswith_def unlink_def Let_def
      discovered_def collect_png_files_def ex_names_def lower_char_simps
      loop_of_main_def clamp_quality_def ex_args_def found_line_def log_def

lemma two_files_outcomes:
  "outcomes ex_lib (discovered ex_lib [] two_files) 82 False False [''public'', ''square'']
     (log two_files (found_line 2 82 False))
   = [Inr (''converted'', 1000, 600), Inr (''converted'', 500, 700)]"
  by (simp add: ex_eval two_files_def)

lemma two_files_loop:
  "snd (loop_of_main ex_lib [] ex_args two_files)
   = \<lparr>converted = 2, skipped = 0, errors = 0, saved_total = 400\<rparr>"
  by (simp add: ex_eval two_files_def)

lemma mixed_loop:
  "snd (loop_of_main ex_lib [] ex_args mixed)
   = \<lparr>converted = 1, skipped = 1, errors = 1, saved_total = 400\<rparr>"
  by (simp add: ex_eval mixed_def)

lemmas ex_eval2 = ex_eval mkdir_parents_def replace_path_def square_target_def

section \<open>Properties\<close>

text \<open>
  C8. For every integer quality input the clamped quality lies between 40 and 95; an
  input below 40 gives 40, an input above 95 gives 95 (and an input in the range is
  returned as it is); in particular 40, 95 and 82 are unchanged, 10 gives 40 and 999
  gives 95.
\<close>

theorem clamp_quality_range:
  "40 \<le> clamp_quality q \<and> clamp_quality q \<le> 95
   \<and> (q < 40 \<longrightarrow> clamp_quality q = 40)
   \<and> (95 < q \<longrightarrow> clamp_quality q = 95)
   \<and> (40 \<le> q \<and> q \<le> 95 \<longrightarrow> clamp_quality q = q)
   \<and> clamp_quality 40 = 40 \<and> clamp_quality 95 = 95 \<and> clamp_quality 82 = 82
   \<and> clamp_quality 10 = 40 \<and> clamp_quality 999 = 95"
  by (simp add: clamp_quality_def)

theorem clamp_quality_range_witness:
  "clamp_quality 10 = 40 \<and> clamp_quality 999 = 95 \<and> clamp_quality 82 = 82
   \<and> 40 \<le> clamp_quality (-7) \<and> clamp_quality (-7) \<le> 95"
  using clamp_quality_range [of 10] clamp_quality_range [of "-7"] by simp

text \<open>
  C1. When \<open>convert_file\<close> returns the \<open>converted\<close> outcome, the source no longer
  exists at its path, and the bytes that the encoder produced from the flattened image
  are a file at the natural output path (same directory and stem, extension \<open>.jpg\<close>)
  or at the square target. And the source is deleted only after the encode and the
  move: a call on a PNG name that leaves the source changed in any way is a call that
  returned \<open>converted\<close>, so a call that raises, at the encode or anywhere else, has
  left the source as it was.
\<close>

theorem convert_file_converted_source_gone:
  assumes "convert_file L w p q force ms sq = (w', r)"
  shows "(\<forall>i out. r = Inr (''converted'', i, out) \<longrightarrow>
            fs w' p = None
            \<and> (\<exists>img rgb b. open_image L w p = Inr img \<and> flatten_to_rgb L img = Inr rgb
                  \<and> jpeg_encode L rgb q = Inr b
                  \<and> (fs w' (butlast p @ [stem p @ ''.jpg'']) = Some (File b)
                       \<or> fs w' (square_target sq p) = Some (File b))))
         \<and> (endswith (lower (name_of p)) ''.png'' \<and> fs w' p \<noteq> fs w p \<longrightarrow>
              (\<exists>i out. r = Inr (''converted'', i, out)))"
proof (intro conjI allI impI)
  fix i out assume r: "r = Inr (''converted'', i, out)"
  from assms r have cf: "convert_file L w p q force ms sq = (w', Inr (''converted'', i, out))"
    by simp
  from cf obtain jpg img rgb b w4 jf where
    j: "with_suffix p ''.jpg'' = Inr jpg" and op: "open_image L w p = Inr img"
    and fl: "flatten_to_rgb L img = Inr rgb" and enc: "jpeg_encode L rgb q = Inr b"
    and rl: "relocate (w\<lparr>fs := (fs w)(jpg \<mapsto> File b)\<rparr>) jpg (stem p) force ms sq = (w4, Inr jf)"
    and ne: "jf \<noteq> p" and j4: "fs w4 jf = Some (File b)"
    and w': "w' = w4\<lparr>fs := (fs w4)(p := None)\<rparr>"
    by (rule convert_file_converted_parts)
  from w' show "fs w' p = None" by simp
  from with_suffix_Inr[OF j] have jpg: "jpg = butlast p @ [stem p @ ''.jpg'']" by simp
  have "fs (w\<lparr>fs := (fs w)(jpg \<mapsto> File b)\<rparr>) jpg = Some (File b)" by simp
  from relocate_ok[OF rl this] have "jf = jpg \<or> jf = square_target sq p"
    by (simp add: square_target_def)
  moreover from w' ne j4 have "fs w' jf = Some (File b)" by simp
  ultimately have "fs w' (butlast p @ [stem p @ ''.jpg'']) = Some (File b)
                   \<or> fs w' (square_target sq p) = Some (File b)"
    using jpg by auto
  with op fl enc show "\<exists>img rgb b. open_image L w p = Inr img \<and> flatten_to_rgb L img = Inr rgb
                  \<and> jpeg_encode L rgb q = Inr b
                  \<and> (fs w' (butlast p @ [stem p @ ''.jpg'']) = Some (File b)
                       \<or> fs w' (square_target sq p) = Some (File b))" by blast
next
  assume "endswith (lower (name_of p)) ''.png'' \<and> fs w' p \<noteq> fs w p"
  with convert_file_source_kept[OF assms] show "\<exists>i out. r = Inr (''converted'', i, out)" by blast
qed

theorem convert_file_converted_source_gone_witness:
  "fs (fst (convert_file ex_lib two_files [''public'', ''images'', ''a.png''] 82 False False
             [''public'', ''square''])) [''public'', ''images'', ''a.png''] = None
   \<and> fs (fst (convert_file ex_lib two_files [''public'', ''images'', ''a.png''] 82 False False
               [''public'', ''square''])) [''public'', ''images'', ''a.jpg'']
       = Some (File (replicate 600 0))
   \<and> snd (convert_file ex_lib mixed [''public'', ''images'', ''bad.PNG''] 82 False False
               [''public'', ''square'']) = Inl (LibraryError ''cannot identify image file'')
   \<and> fs (fst (convert_file ex_lib mixed [''public'', ''images'', ''bad.PNG''] 82 False False
               [''public'', ''square''])) [''public'', ''images'', ''bad.PNG'']
       = fs mixed [''public'', ''images'', ''bad.PNG'']"
proof -
  let ?a = "convert_file ex_lib two_files [''public'', ''images'', ''a.png''] 82 False False
             [''public'', ''square'']"
  let ?b = "convert_file ex_lib mixed [''public'', ''images'', ''bad.PNG''] 82 False False
             [''public'', ''square'']"
  have ra: "snd ?a = Inr (''converted'', 1000, 600)"
    by (simp add: ex_eval two_files_def)
  have rb: "snd ?b = Inl (LibraryError ''cannot identify image file'')"
    by (simp add: ex_eval mixed_def)
  have png: "endswith (lower (name_of [''public'', ''images'', ''bad.PNG''])) ''.png''"
    by (simp add: name_of_def lower_char_simps endswith_def)
  have ja: "fs (fst ?a) [''public'', ''images'', ''a.jpg''] = Some (File (replicate 600 0))"
    by (simp add: ex_eval two_files_def)
  from convert_file_converted_source_gone[OF surjective_pairing, of ex_lib two_files
      "[''public'', ''images'', ''a.png'']" 82 False False "[''public'', ''square'']"] ra
  have "fs (fst ?a) [''public'', ''images'', ''a.png''] = None" by simp
  moreover
  from convert_file_converted_source_gone[OF surjective_pairing, of ex_lib mixed
      "[''public'', ''images'', ''bad.PNG'']" 82 False False "[''public'', ''square'']"] rb png
  have "fs (fst ?b) [''public'', ''images'', ''bad.PNG''] = fs mixed [''public'', ''images'', ''bad.PNG'']"
    by auto
  ultimately show ?thesis using ja rb by simp
qed

text \<open>
  C3. With move-square enabled and a stem that ends in \<open>-square\<close>, a conversion that
  returns \<open>converted\<close> leaves the encoded JPEG at the square target (the square
  directory, the stem without \<open>-square\<close>, \<open>.jpg\<close>) and nothing at the natural path;
  unless the target existed and force is off: then the notice is printed, the JPEG stays
  at the natural path and the target is untouched. In both cases the reported output
  size is the size of the JPEG where it finally is.
\<close>

theorem square_relocation:
  assumes conv: "convert_file L w p q force True sq = (w', Inr (''converted'', i, out))"
    and sqn: "endswith (stem p) ''-square''"
  shows "\<exists>img rgb b. open_image L w p = Inr img \<and> flatten_to_rgb L img = Inr rgb
           \<and> jpeg_encode L rgb q = Inr b \<and> out = int (length b)
           \<and> (if path_exists w (square_target sq p) \<and> \<not> force
               then fs w' (butlast p @ [stem p @ ''.jpg'']) = Some (File b)
                    \<and> fs w' (square_target sq p) = fs w (square_target sq p)
                    \<and> stdout w' = stdout w @ [[Text [Lit ''[png2jpg]''],
                          Text [Lit ''Exists, skip move (use --force):''],
                          PathArg (square_target sq p)]]
               else fs w' (square_target sq p) = Some (File b)
                    \<and> fs w' (butlast p @ [stem p @ ''.jpg'']) = None
                    \<and> stdout w' = stdout w)"
proof -
  from conv obtain jpg img rgb b w4 jf where
    j: "with_suffix p ''.jpg'' = Inr jpg" and op: "open_image L w p = Inr img"
    and fl: "flatten_to_rgb L img = Inr rgb" and enc: "jpeg_encode L rgb q = Inr b"
    and rl: "relocate (w\<lparr>fs := (fs w)(jpg \<mapsto> File b)\<rparr>) jpg (stem p) force True sq = (w4, Inr jf)"
    and ne: "jf \<noteq> p" and w': "w' = w4\<lparr>fs := (fs w4)(p := None)\<rparr>"
    and out: "out = int (length b)"
    by (rule convert_file_converted_parts)
  let ?w1 = "w\<lparr>fs := (fs w)(jpg \<mapsto> File b)\<rparr>"
  let ?t = "square_target sq p"
  from with_suffix_Inr[OF j] have jpg: "jpg = butlast p @ [stem p @ ''.jpg'']" by simp
  have tj: "?t \<noteq> jpg" unfolding jpg square_target_def by (rule target_ne_jpg[OF sqn])
  have tp: "?t \<noteq> p" by (rule square_target_ne_png[OF sqn])
  have j1: "fs ?w1 jpg = Some (File b)" by simp
  have t1: "fs ?w1 ?t = fs w ?t" using tj by simp
  have s1: "stdout ?w1 = stdout w" by simp
  have e1: "path_exists ?w1 ?t = path_exists w ?t" using t1 by (simp add: path_exists_def)
  note R = relocate_square[OF rl sqn j1 tj[unfolded square_target_def],
      folded square_target_def, unfolded e1 t1 s1]
  have H: "if path_exists w ?t \<and> \<not> force
        then fs w' jpg = Some (File b) \<and> fs w' ?t = fs w ?t
             \<and> stdout w' = stdout w @ [[Text [Lit ''[png2jpg]''],
                   Text [Lit ''Exists, skip move (use --force):''], PathArg ?t]]
        else fs w' ?t = Some (File b) \<and> fs w' jpg = None \<and> stdout w' = stdout w"
  proof (cases "path_exists w ?t \<and> \<not> force")
    case True
    have "jf = jpg \<and> fs w4 jpg = Some (File b) \<and> fs w4 ?t = fs w ?t
      \<and> stdout w4 = stdout w @ [[Text [Lit ''[png2jpg]''],
                   Text [Lit ''Exists, skip move (use --force):''], PathArg ?t]]"
      using R unfolding if_P[OF True] .
    then have e: "jf = jpg" and f4: "fs w4 jpg = Some (File b)" and t4: "fs w4 ?t = fs w ?t"
      and s4: "stdout w4 = stdout w @ [[Text [Lit ''[png2jpg]''],
                   Text [Lit ''Exists, skip move (use --force):''], PathArg ?t]]"
      by blast+
    from ne have jp: "jpg \<noteq> p" unfolding e .
    from True tp jp w' f4 t4 s4 show ?thesis by simp
  next
    case False
    have "jf = ?t \<and> fs w4 jf = Some (File b) \<and> fs w4 jpg = None \<and> stdout w4 = stdout w"
      using R unfolding if_not_P[OF False] .
    then have e: "jf = ?t" and f4: "fs w4 jf = Some (File b)" and n4: "fs w4 jpg = None"
      and s4: "stdout w4 = stdout w"
      by blast+
    from f4 have t4: "fs w4 ?t = Some (File b)" unfolding e .
    from False tp w' t4 n4 s4 show ?thesis by simp
  qed
  show ?thesis
    apply (rule exI[of _ img], rule exI[of _ rgb], rule exI[of _ b])
    using op fl enc out H[unfolded jpg] by (simp only: simp_thms)
qed

theorem square_relocation_witness:
  "fs (fst (convert_file ex_lib square_fresh [''public'', ''images'', ''icon-square.png''] 82
             False True [''public'', ''square''])) [''public'', ''square'', ''icon.jpg'']
     = Some (File (replicate 600 0))
   \<and> fs (fst (convert_file ex_lib square_fresh [''public'', ''images'', ''icon-square.png''] 82
             False True [''public'', ''square''])) [''public'', ''images'', ''icon-square.jpg'']
     = None
   \<and> fs (fst (convert_file ex_lib square_taken [''public'', ''images'', ''icon-square.png''] 82
             False True [''public'', ''square''])) [''public'', ''images'', ''icon-square.jpg'']
     = Some (File (replicate 600 0))
   \<and> fs (fst (convert_file ex_lib square_taken [''public'', ''images'', ''icon-square.png''] 82
             False True [''public'', ''square''])) [''public'', ''square'', ''icon.jpg'']
     = Some (File [7])"
proof -
  let ?p = "[''public'', ''images'', ''icon-square.png'']"
  let ?sq = "[''public'', ''square'']"
  let ?f = "convert_file ex_lib square_fresh ?p 82 False True ?sq"
  let ?t = "convert_file ex_lib square_taken ?p 82 False True ?sq"
  have rf: "?f = (fst ?f, Inr (''converted'', 1000, 600))"
    by (simp add: ex_eval2 square_fresh_def prod_eq_iff)
  have rt: "?t = (fst ?t, Inr (''converted'', 1000, 600))"
    by (simp add: ex_eval2 square_taken_def prod_eq_iff)
  have st: "endswith (stem ?p) ''-square''"
    by (simp add: ex_eval2)
  have tg: "square_target ?sq ?p = [''public'', ''square'', ''icon.jpg'']"
    and nat: "butlast ?p @ [stem ?p @ ''.jpg''] = [''public'', ''images'', ''icon-square.jpg'']"
    by (simp_all add: ex_eval2)
  have ef: "\<not> path_exists square_fresh [''public'', ''square'', ''icon.jpg'']"
    and et: "path_exists square_taken [''public'', ''square'', ''icon.jpg'']"
    and ft: "fs square_taken [''public'', ''square'', ''icon.jpg''] = Some (File [7])"
    by (simp_all add: path_exists_def square_fresh_def square_taken_def ex_dirs_def)
  have enc: "jpeg_encode ex_lib
               \<lparr>im_mode = ''RGB'', im_info = [], im_size = (1, 1), im_bands = [[10], [10], [10]]\<rparr> 82
             = Inr (replicate 600 0)"
    by (simp add: ex_lib_def)
  have fl: "flatten_to_rgb ex_lib \<lparr>im_mode = ''L'', im_info = [], im_size = (1, 1), im_bands = [[10]]\<rparr>
            = Inr \<lparr>im_mode = ''RGB'', im_info = [], im_size = (1, 1), im_bands = [[10], [10], [10]]\<rparr>"
    by (simp add: flatten_to_rgb_def ex_lib_def)
  have of: "open_image ex_lib square_fresh ?p
            = Inr \<lparr>im_mode = ''L'', im_info = [], im_size = (1, 1), im_bands = [[10]]\<rparr>"
    and ot: "open_image ex_lib square_taken ?p
            = Inr \<lparr>im_mode = ''L'', im_info = [], im_size = (1, 1), im_bands = [[10]]\<rparr>"
    by (simp_all add: open_image_def ex_lib_def square_fresh_def square_taken_def ex_dirs_def)
  from square_relocation[OF rf st] of fl enc ef tg nat
  have "fs (fst ?f) [''public'', ''square'', ''icon.jpg''] = Some (File (replicate 600 0))
        \<and> fs (fst ?f) [''public'', ''images'', ''icon-square.jpg''] = None"
    by auto
  moreover
  from square_relocation[OF rt st] ot fl enc et ft tg nat
  have "fs (fst ?t) [''public'', ''images'', ''icon-square.jpg''] = Some (File (replicate 600 0))
        \<and> fs (fst ?t) [''public'', ''square'', ''icon.jpg''] = Some (File [7])"
    by auto
  ultimately show ?thesis by simp
qed

text \<open>
  C6. When the natural output path exists and force is off, \<open>convert_file\<close> returns
  \<open>skipped\<close> with zero bytes for input and output, and the world it returns is the world
  it received: no file is written, moved or deleted and nothing is printed, whatever the
  library and the contents of the files are.
\<close>

theorem convert_file_skips_existing:
  assumes "name_of p \<noteq> []"
    and "path_exists w (butlast p @ [stem p @ ''.jpg''])"
    and "\<not> force"
  shows "convert_file L w p q force ms sq = (w, Inr (''skipped'', 0, 0))"
  using assms by (simp add: convert_file_relocate with_suffix_nonempty)

theorem convert_file_skips_existing_witness:
  "convert_file ex_lib mixed [''public'', ''images'', ''b.png''] 82 False False
     [''public'', ''square'']
   = (mixed, Inr (''skipped'', 0, 0))"
proof -
  have n: "name_of [''public'', ''images'', ''b.png''] \<noteq> []"
    by (simp add: name_of_def)
  have e: "path_exists mixed (butlast [''public'', ''images'', ''b.png'']
             @ [stem [''public'', ''images'', ''b.png''] @ ''.jpg''])"
    by (simp add: ex_eval mixed_def)
  show ?thesis
    by (rule convert_file_skips_existing[OF n e]) simp
qed

text \<open>
  C4. The exit status of \<open>main\<close> is 1 exactly when the primary image directory does
  not exist at the start or the error counter is not zero when the loop ends; in every
  other run it is 0, and so in a run that finds no file at all.
\<close>

theorem exit_status:
  "(snd (main L cwd a w) = 1 \<longleftrightarrow>
      \<not> path_exists w (cwd @ [''public'', ''images''])
      \<or> errors (snd (loop_of_main L cwd a w)) \<noteq> 0)
   \<and> (snd (main L cwd a w) \<noteq> 1 \<longrightarrow> snd (main L cwd a w) = 0)
   \<and> (path_exists w (cwd @ [''public'', ''images'']) \<and> discovered L cwd w = []
        \<longrightarrow> snd (main L cwd a w) = 0)"
proof (cases "path_exists w (cwd @ [''public'', ''images''])")
  case True
  have "discovered L cwd w = [] \<Longrightarrow> errors (snd (loop_of_main L cwd a w)) = 0"
    by (simp add: loop_of_main_def)
  with True show ?thesis by (auto simp: main_runs_loop)
next
  case False
  then show ?thesis by (simp add: main_missing)
qed

theorem exit_status_witness:
  "snd (main ex_lib [] ex_args mixed) = 1
   \<and> snd (main ex_lib [] ex_args two_files) = 0
   \<and> snd (main ex_lib [] ex_args empty_tree) = 0
   \<and> snd (main ex_lib [] ex_args no_images) = 1"
proof -
  have m: "path_exists mixed [''public'', ''images'']"
    and t: "path_exists two_files [''public'', ''images'']"
    and e: "path_exists empty_tree [''public'', ''images'']"
    and n: "\<not> path_exists no_images [''public'', ''images'']"
    by (simp_all add: path_exists_def mixed_def two_files_def empty_tree_def no_images_def
        ex_dirs_def)
  have d: "discovered ex_lib [] empty_tree = []"
    by (simp add: ex_eval empty_tree_def)
  show ?thesis
    using exit_status[of ex_lib "[]" ex_args mixed] exit_status[of ex_lib "[]" ex_args two_files]
      exit_status[of ex_lib "[]" ex_args empty_tree] exit_status[of ex_lib "[]" ex_args no_images]
      m t e n d mixed_loop two_files_loop
    by simp
qed

text \<open>
  C5. An exception raised by \<open>convert_file\<close> for one file is caught by the loop: when
  the file \<open>f\<close> raises after the files \<open>xs\<close>, the loop goes on through all the files
  \<open>ys\<close> behind it with exactly one more error, and standard output at the end of the
  loop begins with everything printed up to the exception followed by the line
  \<^verbatim>\<open>[png2jpg] Error: <f> <exception>\<close>; whatever the later files print comes after
  it, and nothing printed before the loop is lost. Every file of the list gets its
  outcome, and the error counter grows by the number of outcomes that are exceptions.
  When the primary image directory exists, \<open>main\<close> runs the whole loop and prints the
  summary; only when it does not exist does \<open>main\<close> stop before the loop, with one
  printed line and status 1.
\<close>

theorem errors_do_not_abort:
  "(process_files L xs q force ms sq w c = (w1, c1)
      \<and> convert_file L w1 f q force ms sq = (w2, Inl exc) \<longrightarrow>
      process_files L (xs @ f # ys) q force ms sq w c
        = process_files L ys q force ms sq
            (log w2 [Text [Lit ''Error:''], PathArg f, ExcArg exc])
            (c1\<lparr>errors := errors c1 + 1\<rparr>)
      \<and> prefix (stdout w) (stdout w2)
      \<and> prefix (stdout w2 @ [[Text [Lit ''[png2jpg]''], Text [Lit ''Error:''], PathArg f,
                                ExcArg exc]])
            (stdout (fst (process_files L (xs @ f # ys) q force ms sq w c))))
   \<and> prefix (stdout w) (stdout (fst (process_files L files q force ms sq w c)))
   \<and> length (outcomes L files q force ms sq w) = length files
   \<and> errors (snd (process_files L files q force ms sq w c))
       = errors c + int (length (filter isl (outcomes L files q force ms sq w)))
   \<and> (path_exists w (cwd @ [''public'', ''images'']) \<longrightarrow>
        fst (main L cwd a w)
          = summary (fst (loop_of_main L cwd a w)) (snd (loop_of_main L cwd a w)))
   \<and> (\<not> path_exists w (cwd @ [''public'', ''images'']) \<longrightarrow>
        main L cwd a w
          = (log w [Text [Lit ''Images directory not found:''],
                    PathArg (cwd @ [''public'', ''images''])], 1))"
proof -
  obtain w' c' where pf: "process_files L files q force ms sq w c = (w', c')"
    by (cases "process_files L files q force ms sq w c")
  from process_files_outcomes[OF pf] pf
  have o: "length (outcomes L files q force ms sq w) = length files"
    and e: "errors (snd (process_files L files q force ms sq w c))
       = errors c + int (length (filter isl (outcomes L files q force ms sq w)))"
    by simp_all
  have step: "process_files L (xs @ f # ys) q force ms sq w c
        = process_files L ys q force ms sq
            (log w2 [Text [Lit ''Error:''], PathArg f, ExcArg exc])
            (c1\<lparr>errors := errors c1 + 1\<rparr>)
      \<and> prefix (stdout w) (stdout w2)
      \<and> prefix (stdout w2 @ [[Text [Lit ''[png2jpg]''], Text [Lit ''Error:''], PathArg f,
                                ExcArg exc]])
            (stdout (fst (process_files L (xs @ f # ys) q force ms sq w c)))"
    if h: "process_files L xs q force ms sq w c = (w1, c1)
           \<and> convert_file L w1 f q force ms sq = (w2, Inl exc)"
  proof -
    from h have px: "process_files L xs q force ms sq w c = (w1, c1)"
      and cf: "convert_file L w1 f q force ms sq = (w2, Inl exc)" by simp_all
    let ?w = "log w2 [Text [Lit ''Error:''], PathArg f, ExcArg exc]"
    have eq: "process_files L (xs @ f # ys) q force ms sq w c
        = process_files L ys q force ms sq ?w (c1\<lparr>errors := errors c1 + 1\<rparr>)"
      using px cf by (simp add: process_files_append)
    have "prefix (stdout w) (stdout (fst (process_files L xs q force ms sq w c)))"
      by (rule process_files_stdout)
    with px have a: "prefix (stdout w) (stdout w1)" by simp
    from a convert_file_stdout[OF cf] have b: "prefix (stdout w) (stdout w2)"
      by (rule prefix_order.trans)
    have "prefix (stdout ?w)
            (stdout (fst (process_files L ys q force ms sq ?w (c1\<lparr>errors := errors c1 + 1\<rparr>))))"
      by (rule process_files_stdout)
    then have c: "prefix (stdout w2 @ [[Text [Lit ''[png2jpg]''], Text [Lit ''Error:''], PathArg f,
                                ExcArg exc]])
            (stdout (fst (process_files L (xs @ f # ys) q force ms sq w c)))"
      unfolding eq by simp
    from eq b c show ?thesis by (simp only: simp_thms)
  qed
  have all: "prefix (stdout w) (stdout (fst (process_files L files q force ms sq w c)))"
    by (rule process_files_stdout)
  have m1: "path_exists w (cwd @ [''public'', ''images'']) \<longrightarrow>
        fst (main L cwd a w)
          = summary (fst (loop_of_main L cwd a w)) (snd (loop_of_main L cwd a w))"
    by (simp add: main_runs_loop)
  have m2: "\<not> path_exists w (cwd @ [''public'', ''images'']) \<longrightarrow>
        main L cwd a w
          = (log w [Text [Lit ''Images directory not found:''],
                    PathArg (cwd @ [''public'', ''images''])], 1)"
    by (simp add: main_missing)
  from step all o e m1 m2 show ?thesis by blast
qed

theorem errors_do_not_abort_witness:
  "process_files ex_lib
     ([[''public'', ''images'', ''a.png'']] @ [''public'', ''images'', ''bad.PNG'']
        # [[''public'', ''images'', ''b.png'']])
     82 False False [''public'', ''square''] mixed
     \<lparr>converted = 0, skipped = 0, errors = 0, saved_total = 0\<rparr>
   = process_files ex_lib [[''public'', ''images'', ''b.png'']] 82 False False
       [''public'', ''square'']
       (log (fst (process_files ex_lib [[''public'', ''images'', ''a.png'']] 82 False False
                    [''public'', ''square''] mixed
                    \<lparr>converted = 0, skipped = 0, errors = 0, saved_total = 0\<rparr>))
          [Text [Lit ''Error:''], PathArg [''public'', ''images'', ''bad.PNG''],
           ExcArg (LibraryError ''cannot identify image file'')])
       \<lparr>converted = 1, skipped = 0, errors = 1, saved_total = 400\<rparr>
   \<and> prefix
         [[Text [Lit ''[png2jpg]''], Text [Lit ''Error:''],
           PathArg [''public'', ''images'', ''bad.PNG''],
           ExcArg (LibraryError ''cannot identify image file'')]]
         (stdout (fst (process_files ex_lib
            ([[''public'', ''images'', ''a.png'']] @ [''public'', ''images'', ''bad.PNG'']
               # [[''public'', ''images'', ''b.png'']])
            82 False False [''public'', ''square''] mixed
            \<lparr>converted = 0, skipped = 0, errors = 0, saved_total = 0\<rparr>)))
   \<and> snd (process_files ex_lib
            ([[''public'', ''images'', ''a.png'']] @ [''public'', ''images'', ''bad.PNG'']
               # [[''public'', ''images'', ''b.png'']])
            82 False False [''public'', ''square''] mixed
            \<lparr>converted = 0, skipped = 0, errors = 0, saved_total = 0\<rparr>)
       = \<lparr>converted = 1, skipped = 1, errors = 1, saved_total = 400\<rparr>"
proof -
  let ?c0 = "\<lparr>converted = 0, skipped = 0, errors = 0, saved_total = 0\<rparr>"
  let ?w1 = "fst (process_files ex_lib [[''public'', ''images'', ''a.png'']] 82 False False
                    [''public'', ''square''] mixed ?c0)"
  have a: "process_files ex_lib [[''public'', ''images'', ''a.png'']] 82 False False
             [''public'', ''square''] mixed ?c0
           = (?w1, \<lparr>converted = 1, skipped = 0, errors = 0, saved_total = 400\<rparr>)"
    by (simp add: ex_eval mixed_def)
  have b: "convert_file ex_lib ?w1 [''public'', ''images'', ''bad.PNG''] 82 False False
             [''public'', ''square'']
           = (?w1, Inl (LibraryError ''cannot identify image file''))"
    by (simp add: ex_eval mixed_def)
  have s1: "stdout ?w1 = []"
    by (simp add: ex_eval mixed_def)
  have fin: "snd (process_files ex_lib
            ([[''public'', ''images'', ''a.png'']] @ [''public'', ''images'', ''bad.PNG'']
               # [[''public'', ''images'', ''b.png'']])
            82 False False [''public'', ''square''] mixed ?c0)
       = \<lparr>converted = 1, skipped = 1, errors = 1, saved_total = 400\<rparr>"
    by (simp add: ex_eval mixed_def)
  note T = errors_do_not_abort[where L = ex_lib and xs = "[[''public'', ''images'', ''a.png'']]"
        and q = 82 and force = False and ms = False and sq = "[''public'', ''square'']"
        and w = mixed and c = ?c0 and ?w1.0 = ?w1
        and ?c1.0 = "\<lparr>converted = 1, skipped = 0, errors = 0, saved_total = 400\<rparr>"
        and f = "[''public'', ''images'', ''bad.PNG'']" and ?w2.0 = ?w1
        and exc = "LibraryError ''cannot identify image file''"
        and ys = "[[''public'', ''images'', ''b.png'']]" and files = "[]" and cwd = "[]"
        and a = ex_args]
  note step = T[THEN conjunct1, rule_format, OF conjI[OF a b]]
  have rec: "\<lparr>converted = 1, skipped = 0, errors = 0, saved_total = 400\<rparr>
               \<lparr>errors := errors \<lparr>converted = 1, skipped = 0, errors = 0,
                                    saved_total = 400\<rparr> + 1\<rparr>
             = \<lparr>converted = 1, skipped = 0, errors = 1, saved_total = 400\<rparr>"
    by simp
  note eq = step[THEN conjunct1, unfolded rec]
  note pre = step[THEN conjunct2, THEN conjunct2, unfolded s1 append_Nil]
  from eq pre fin show ?thesis by (intro conjI)
qed

text \<open>
  C7. The total of saved bytes after the loop is the total before it plus the sum of the
  savings of the outcomes, where a converted file saves \<open>max 0 (input - output)\<close> and
  every other outcome saves nothing; no outcome saves a negative amount, and converted
  files of (1000, 600) and (500, 700) bytes save 400 together.
\<close>

theorem saved_total_sum:
  "saved_total (snd (process_files L files q force ms sq w c))
     = saved_total c + sum_list (map saving (outcomes L files q force ms sq w))
   \<and> 0 \<le> saving r
   \<and> saving (Inl exc) = 0
   \<and> saving (Inr (''skipped'', 0, 0)) = 0
   \<and> saving (Inr (''converted'', i, out)) = max 0 (i - out)
   \<and> saving (Inr (''converted'', 1000, 600)) + saving (Inr (''converted'', 500, 700)) = 400"
proof -
  obtain w' c' where pf: "process_files L files q force ms sq w c = (w', c')"
    by (cases "process_files L files q force ms sq w c")
  from process_files_outcomes[OF pf] pf
  have "saved_total (snd (process_files L files q force ms sq w c))
     = saved_total c + sum_list (map saving (outcomes L files q force ms sq w))"
    by simp
  moreover have "0 \<le> saving r"
    by (auto simp: saving_def split: sum.splits)
  ultimately show ?thesis by (simp add: saving_def)
qed

theorem saved_total_sum_witness:
  "saved_total (snd (loop_of_main ex_lib [] ex_args two_files)) = 400"
proof -
  have d: "length (discovered ex_lib [] two_files) = 2"
    by (simp add: two_files_discovered)
  show ?thesis
    unfolding loop_of_main_def
    using saved_total_sum[of ex_lib "discovered ex_lib [] two_files" 82 False False
        "[''public'', ''square'']" "log two_files (found_line 2 82 False)"
        "\<lparr>converted = 0, skipped = 0, errors = 0, saved_total = 0\<rparr>"]
      two_files_outcomes d
    by (simp add: saving_def clamp_quality_def ex_args_def)
qed

text \<open>
  C10. The three counters partition the files: after the loop their sum has grown by the
  number of files and none of them has gone down; one file adds one to exactly one of
  them; and at the end of the loop of \<open>main\<close>, which starts from zero, their sum is the
  number of discovered paths.
\<close>

theorem counters_partition:
  "(case process_files L files q force ms sq w c of
      (w', c') \<Rightarrow>
        converted c' + skipped c' + errors c'
          = converted c + skipped c + errors c + int (length files)
        \<and> converted c \<le> converted c' \<and> skipped c \<le> skipped c' \<and> errors c \<le> errors c')
   \<and> (case process_files L [f] q force ms sq w c of
        (w', c') \<Rightarrow>
          (converted c' = converted c + 1 \<and> skipped c' = skipped c \<and> errors c' = errors c)
          \<or> (converted c' = converted c \<and> skipped c' = skipped c + 1 \<and> errors c' = errors c)
          \<or> (converted c' = converted c \<and> skipped c' = skipped c \<and> errors c' = errors c + 1))
   \<and> (case loop_of_main L cwd a w of
        (w', c') \<Rightarrow>
          converted c' + skipped c' + errors c' = int (length (discovered L cwd w))
          \<and> 0 \<le> converted c' \<and> 0 \<le> skipped c' \<and> 0 \<le> errors c')"
proof (intro conjI)
  show "case process_files L files q force ms sq w c of
      (w', c') \<Rightarrow>
        converted c' + skipped c' + errors c'
          = converted c + skipped c + errors c + int (length files)
        \<and> converted c \<le> converted c' \<and> skipped c \<le> skipped c' \<and> errors c \<le> errors c'"
    using process_files_counts[of L files q force ms sq w c]
    by (cases "process_files L files q force ms sq w c") simp
  show "case process_files L [f] q force ms sq w c of
        (w', c') \<Rightarrow>
          (converted c' = converted c + 1 \<and> skipped c' = skipped c \<and> errors c' = errors c)
          \<or> (converted c' = converted c \<and> skipped c' = skipped c + 1 \<and> errors c' = errors c)
          \<or> (converted c' = converted c \<and> skipped c' = skipped c \<and> errors c' = errors c + 1)"
    by (auto split: prod.splits sum.splits)
  show "case loop_of_main L cwd a w of
        (w', c') \<Rightarrow>
          converted c' + skipped c' + errors c' = int (length (discovered L cwd w))
          \<and> 0 \<le> converted c' \<and> 0 \<le> skipped c' \<and> 0 \<le> errors c'"
    unfolding loop_of_main_def
    using process_files_counts[of L "discovered L cwd w" "clamp_quality (arg_quality a)"
        "arg_force a" "arg_move_square a" "cwd @ [''public'', ''square'']"
        "log w (found_line (length (discovered L cwd w)) (clamp_quality (arg_quality a))
                 (arg_move_square a))"
        "\<lparr>converted = 0, skipped = 0, errors = 0, saved_total = 0\<rparr>"]
    by (cases "process_files L (discovered L cwd w) (clamp_quality (arg_quality a))
        (arg_force a) (arg_move_square a) (cwd @ [''public'', ''square''])
        (log w (found_line (length (discovered L cwd w)) (clamp_quality (arg_quality a))
                 (arg_move_square a)))
        \<lparr>converted = 0, skipped = 0, errors = 0, saved_total = 0\<rparr>") simp
qed

theorem counters_partition_witness:
  "converted (snd (loop_of_main ex_lib [] ex_args mixed)) = 1
   \<and> skipped (snd (loop_of_main ex_lib [] ex_args mixed)) = 1
   \<and> errors (snd (loop_of_main ex_lib [] ex_args mixed)) = 1
   \<and> length (discovered ex_lib [] mixed) = 3"
  using counters_partition[where L = ex_lib and files = "[]" and q = 82 and force = False
      and ms = False and sq = "[]" and w = mixed
      and c = "\<lparr>converted = 0, skipped = 0, errors = 0, saved_total = 0\<rparr>"
      and f = "[]" and cwd = "[]" and a = ex_args]
    mixed_loop
  by (simp add: ex_eval mixed_def)

text \<open>
  C9. For an image with an alpha channel, that is an \<open>RGBA\<close> image of four bands or an
  \<open>LA\<close> image of two, each with one sample for every pixel, \<open>flatten_to_rgb\<close> returns
  an \<open>RGB\<close> image of the same size in which every pixel whose alpha is 0 is white
  (255, 255, 255) and every pixel whose alpha is 255 has the red, green and blue of the
  source (for \<open>LA\<close>, its luminance three times).
\<close>

theorem flatten_alpha_pixels:
  "(im_mode img = ''RGBA'' \<and> im_bands img = [r, g, b, a]
      \<and> length r = n \<and> length g = n \<and> length b = n \<and> length a = n
      \<and> fst (im_size img) * snd (im_size img) = n \<longrightarrow>
      (\<exists>r' g' b'.
         flatten_to_rgb L img
           = Inr \<lparr>im_mode = ''RGB'', im_info = [], im_size = im_size img,
                  im_bands = [r', g', b']\<rparr>
         \<and> length r' = n \<and> length g' = n \<and> length b' = n
         \<and> (\<forall>i<n. (a ! i = 0 \<longrightarrow> r' ! i = 255 \<and> g' ! i = 255 \<and> b' ! i = 255)
                  \<and> (a ! i = 255 \<longrightarrow> r' ! i = r ! i \<and> g' ! i = g ! i \<and> b' ! i = b ! i))))
   \<and> (im_mode img = ''LA'' \<and> im_bands img = [l, a]
      \<and> length l = n \<and> length a = n
      \<and> fst (im_size img) * snd (im_size img) = n \<longrightarrow>
      (\<exists>r' g' b'.
         flatten_to_rgb L img
           = Inr \<lparr>im_mode = ''RGB'', im_info = [], im_size = im_size img,
                  im_bands = [r', g', b']\<rparr>
         \<and> length r' = n \<and> length g' = n \<and> length b' = n
         \<and> (\<forall>i<n. (a ! i = 0 \<longrightarrow> r' ! i = 255 \<and> g' ! i = 255 \<and> b' ! i = 255)
                  \<and> (a ! i = 255 \<longrightarrow> r' ! i = l ! i \<and> g' ! i = l ! i \<and> b' ! i = l ! i))))"
proof (intro conjI impI)
  assume h: "im_mode img = ''RGBA'' \<and> im_bands img = [r, g, b, a]
      \<and> length r = n \<and> length g = n \<and> length b = n \<and> length a = n
      \<and> fst (im_size img) * snd (im_size img) = n"
  then have m: "im_mode img = ''RGBA''" and bs: "im_bands img = [r, g, b, a]"
    and lr: "length r = n" and lg: "length g = n" and lb: "length b = n" and la: "length a = n"
    and sz: "fst (im_size img) * snd (im_size img) = n"
    by simp_all
  let ?r = "paste_band blend8 a (replicate n 255) r"
  let ?g = "paste_band blend8 a (replicate n 255) g"
  let ?b = "paste_band blend8 a (replicate n 255) b"
  have f: "flatten_to_rgb L img
           = Inr \<lparr>im_mode = ''RGB'', im_info = [], im_size = im_size img,
                  im_bands = [?r, ?g, ?b]\<rparr>"
    using flatten_rgba[OF m bs, of L] by (simp only: sz)
  have len: "length ?r = n" "length ?g = n" "length ?b = n"
    using lr lg lb la by (simp_all add: paste_band_length)
  have px: "\<forall>i<n. (a ! i = 0 \<longrightarrow> ?r ! i = 255 \<and> ?g ! i = 255 \<and> ?b ! i = 255)
                  \<and> (a ! i = 255 \<longrightarrow> ?r ! i = r ! i \<and> ?g ! i = g ! i \<and> ?b ! i = b ! i)"
    using white_or_source[OF _ la lr] white_or_source[OF _ la lg] white_or_source[OF _ la lb]
    by blast
  show "\<exists>r' g' b'.
         flatten_to_rgb L img
           = Inr \<lparr>im_mode = ''RGB'', im_info = [], im_size = im_size img,
                  im_bands = [r', g', b']\<rparr>
         \<and> length r' = n \<and> length g' = n \<and> length b' = n
         \<and> (\<forall>i<n. (a ! i = 0 \<longrightarrow> r' ! i = 255 \<and> g' ! i = 255 \<and> b' ! i = 255)
                  \<and> (a ! i = 255 \<longrightarrow> r' ! i = r ! i \<and> g' ! i = g ! i \<and> b' ! i = b ! i))"
    apply (rule exI[of _ ?r], rule exI[of _ ?g], rule exI[of _ ?b])
    using f len px by (simp only: simp_thms)
next
  assume h: "im_mode img = ''LA'' \<and> im_bands img = [l, a]
      \<and> length l = n \<and> length a = n
      \<and> fst (im_size img) * snd (im_size img) = n"
  then have m: "im_mode img = ''LA''" and bs: "im_bands img = [l, a]"
    and ll: "length l = n" and la: "length a = n"
    and sz: "fst (im_size img) * snd (im_size img) = n"
    by simp_all
  let ?l = "paste_band blend8 a (replicate n 255) l"
  have f: "flatten_to_rgb L img
           = Inr \<lparr>im_mode = ''RGB'', im_info = [], im_size = im_size img,
                  im_bands = [?l, ?l, ?l]\<rparr>"
    using flatten_la[OF m bs, of L] by (simp only: sz)
  have len: "length ?l = n"
    using ll la by (simp add: paste_band_length)
  have px: "\<forall>i<n. (a ! i = 0 \<longrightarrow> ?l ! i = 255 \<and> ?l ! i = 255 \<and> ?l ! i = 255)
                  \<and> (a ! i = 255 \<longrightarrow> ?l ! i = l ! i \<and> ?l ! i = l ! i \<and> ?l ! i = l ! i)"
    using white_or_source[OF _ la ll] by blast
  show "\<exists>r' g' b'.
         flatten_to_rgb L img
           = Inr \<lparr>im_mode = ''RGB'', im_info = [], im_size = im_size img,
                  im_bands = [r', g', b']\<rparr>
         \<and> length r' = n \<and> length g' = n \<and> length b' = n
         \<and> (\<forall>i<n. (a ! i = 0 \<longrightarrow> r' ! i = 255 \<and> g' ! i = 255 \<and> b' ! i = 255)
                  \<and> (a ! i = 255 \<longrightarrow> r' ! i = l ! i \<and> g' ! i = l ! i \<and> b' ! i = l ! i))"
    apply (rule exI[of _ ?l], rule exI[of _ ?l], rule exI[of _ ?l])
    using f len px by (simp only: simp_thms)
qed

theorem flatten_alpha_pixels_witness:
  "flatten_to_rgb ex_lib rgba_two
   = Inr \<lparr>im_mode = ''RGB'', im_info = [], im_size = (2, 1),
          im_bands = [[255, 40], [255, 50], [255, 60]]\<rparr>"
proof -
  have m: "im_mode rgba_two = ''RGBA''"
    and bs: "im_bands rgba_two = [[10, 40], [20, 50], [30, 60], [0, 255]]"
    and sz: "im_size rgba_two = (2, 1)"
    by (simp_all add: rgba_two_def)
  from flatten_alpha_pixels[where img = rgba_two and L = ex_lib and n = 2
      and r = "[10, 40]" and g = "[20, 50]" and b = "[30, 60]" and a = "[0, 255]"
      and l = "[]"] m bs sz
  obtain r' g' b' where
    f: "flatten_to_rgb ex_lib rgba_two
        = Inr \<lparr>im_mode = ''RGB'', im_info = [], im_size = (2, 1), im_bands = [r', g', b']\<rparr>"
    and len: "length r' = 2" "length g' = 2" "length b' = 2"
    and px: "\<forall>i<2. ([0, 255 :: 8 word] ! i = 0 \<longrightarrow> r' ! i = 255 \<and> g' ! i = 255 \<and> b' ! i = 255)
                  \<and> ([0, 255 :: 8 word] ! i = 255 \<longrightarrow>
                        r' ! i = [10, 40] ! i \<and> g' ! i = [20, 50] ! i \<and> b' ! i = [30, 60] ! i)"
    by auto
  from spec[OF px, of 0] have p0: "r' ! 0 = 255 \<and> g' ! 0 = 255 \<and> b' ! 0 = 255"
    by simp
  from spec[OF px, of 1] have p1: "r' ! 1 = 40 \<and> g' ! 1 = 50 \<and> b' ! 1 = 60"
    by simp
  have two: "\<And>xs x y. length xs = 2 \<Longrightarrow> xs ! 0 = x \<Longrightarrow> xs ! 1 = (y :: 8 word) \<Longrightarrow> xs = [x, y]"
    by (auto simp: length_Suc_conv numeral_2_eq_2)
  from len p0 p1 have "r' = [255, 40]" "g' = [255, 50]" "b' = [255, 60]"
    by (auto intro: two)
  with f show ?thesis by simp
qed

text \<open>
  C2, as the claim states it, fails: an image that carries transparency metadata is not
  always composited onto white. The grey image \<open>gray_transparent\<close> has the key
  \<open>transparency\<close> in its info and is converted directly, its black pixel staying black,
  where the compositing with its last band as the mask gives a white pixel.
\<close>

theorem flatten_composites_transparency_counterexample:
  "''transparency'' \<in> set (im_info gray_transparent)
   \<and> flatten_to_rgb ex_lib gray_transparent = Inr (convert ex_lib gray_transparent ''RGB'')
   \<and> flatten_to_rgb ex_lib gray_transparent
       = Inr \<lparr>im_mode = ''RGB'', im_info = [''transparency''], im_size = (1, 1),
              im_bands = [[0], [0], [0]]\<rparr>
   \<and> image_paste ex_lib (image_new_rgb (im_size gray_transparent) (255, 255, 255))
         gray_transparent (last (image_split gray_transparent))
       = Inr \<lparr>im_mode = ''RGB'', im_info = [], im_size = (1, 1),
              im_bands = [[255], [255], [255]]\<rparr>
   \<and> flatten_to_rgb ex_lib gray_transparent
       \<noteq> image_paste ex_lib (image_new_rgb (im_size gray_transparent) (255, 255, 255))
           gray_transparent (last (image_split gray_transparent))"
  by (simp add: gray_transparent_def flatten_to_rgb_def ex_lib_def image_paste_def
      image_new_rgb_def image_split_def storage_bands_def paste_band_def blend8_transparent
      Let_def)

text \<open>
  C2, amended. The flattening step selects its policy by the mode first: an image of mode
  \<open>RGB\<close> or \<open>L\<close> is converted directly to \<open>RGB\<close> without compositing, whether
  or not it carries transparency metadata; an image with an alpha channel (\<open>RGBA\<close> or
  \<open>LA\<close>) is pasted onto an opaque white image of the same size with its alpha band,
  the last band, as the blend mask, which gives an \<open>RGB\<close> image of that size; and an
  image of any other mode that carries no transparency metadata is converted directly
  to \<open>RGB\<close>.
\<close>

theorem flatten_policy:
  "(im_mode img \<in> {''RGB'', ''L''} \<longrightarrow> flatten_to_rgb L img = Inr (convert L img ''RGB''))
   \<and> (im_mode img \<in> {''RGBA'', ''LA''} \<longrightarrow>
        flatten_to_rgb L img
          = image_paste L (image_new_rgb (im_size img) (255, 255, 255)) img
              (last (image_split img))
        \<and> (\<exists>out. flatten_to_rgb L img = Inr out \<and> im_mode out = ''RGB''
                  \<and> im_size out = im_size img)
        \<and> (1 < length (im_bands img) \<longrightarrow>
              last (image_split img)
                = img\<lparr>im_mode := ''L'', im_bands := [last (im_bands img)]\<rparr>))
   \<and> (im_mode img \<notin> {''RGB'', ''L'', ''RGBA'', ''LA''}
        \<and> ''transparency'' \<notin> set (im_info img) \<longrightarrow>
        flatten_to_rgb L img = Inr (convert L img ''RGB''))"
proof (intro conjI impI)
  assume "im_mode img \<in> {''RGB'', ''L''}"
  then show "flatten_to_rgb L img = Inr (convert L img ''RGB'')"
    by (simp add: flatten_to_rgb_def)
next
  assume m: "im_mode img \<in> {''RGBA'', ''LA''}"
  then show p: "flatten_to_rgb L img
          = image_paste L (image_new_rgb (im_size img) (255, 255, 255)) img
              (last (image_split img))"
    by (auto simp: flatten_to_rgb_def Let_def)
  have sz: "im_size (last (image_split img)) = im_size img"
    by (cases "im_bands img" rule: rev_cases) (auto simp: image_split_def last_map)
  have md: "im_mode (last (image_split img)) = ''L''
            \<or> im_mode (last (image_split img)) = im_mode img"
    by (cases "im_bands img" rule: rev_cases) (auto simp: image_split_def last_map)
  from m md sz show "\<exists>out. flatten_to_rgb L img = Inr out \<and> im_mode out = ''RGB''
                  \<and> im_size out = im_size img"
    unfolding p
    by (auto simp: image_paste_def image_new_rgb_def Let_def)
next
  assume "im_mode img \<in> {''RGBA'', ''LA''}" and "1 < length (im_bands img)"
  then show "last (image_split img) = img\<lparr>im_mode := ''L'', im_bands := [last (im_bands img)]\<rparr>"
    by (cases "im_bands img" rule: rev_cases) (auto simp: image_split_def last_map)
next
  assume "im_mode img \<notin> {''RGB'', ''L'', ''RGBA'', ''LA''}
        \<and> ''transparency'' \<notin> set (im_info img)"
  then show "flatten_to_rgb L img = Inr (convert L img ''RGB'')"
    by (simp add: flatten_to_rgb_def)
qed

theorem flatten_policy_witness:
  "flatten_to_rgb ex_lib gray_transparent = Inr (convert ex_lib gray_transparent ''RGB'')
   \<and> flatten_to_rgb ex_lib rgba_two
       = image_paste ex_lib (image_new_rgb (2, 1) (255, 255, 255)) rgba_two
           (rgba_two\<lparr>im_mode := ''L'', im_bands := [[0, 255]]\<rparr>)
   \<and> flatten_to_rgb ex_lib palette_plain = Inr (convert ex_lib palette_plain ''RGB'')"
  using flatten_policy[of gray_transparent ex_lib] flatten_policy[of rgba_two ex_lib]
    flatten_policy[of palette_plain ex_lib]
  by (simp add: gray_transparent_def rgba_two_def palette_plain_def)


end
